theory Spec2Isabelle
  imports Main "HOL-Library.Sublist" "HOL-Library.AList"
begin

section \<open>Values handed back by the query service\<close>

text \<open>
  A cell of a result table is a Go \<open>any\<close>. The code of \<open>cmd/optimize/events.go\<close> asserts
  four dynamic types on it: \<open>string\<close>, \<open>time.Time\<close>, \<open>uql.ComplexData\<close> (a nested table
  of key/value pairs) and \<open>*uql.DataSet\<close> (a pointer, which may be nil and still pass the
  type assertion). \<open>VNil\<close> is the nil interface, \<open>VOther\<close> any other dynamic type.
  A \<open>uql.DataSet\<close> is used through its fields \<open>Name\<close>, \<open>Data\<close> and \<open>Links\<close>.
\<close>

datatype val =
    VString string
  | VTime int
  | VComplex "val list list"
  | VDataSet "dataset option"
  | VNil
  | VOther string
and dataset =
    DataSet (Name: string) (Data: "val list list") (Links: "(string \<times> string) list")

text \<open>
  A Go \<open>map[string]any\<close> is an association list; \<open>m[k] = v\<close> is \<open>AList.update\<close>, a lookup
  is \<open>map_of\<close>, and the list order is the order in which \<open>range\<close> visits the entries
  (Go leaves it unspecified; theorems about a \<open>range\<close> loop hold for every list).
\<close>

type_synonym attrs = "(string \<times> val) list"

record EventsRow =
  Timestamp :: int
  EventAttributes :: attrs

record recommendationRow = EventsRow +
  BlockersAttributes :: attrs
  BlockersPresent :: string
  Blockers :: "string list"

section \<open>Errors, panics and outcomes\<close>

text \<open>
  An error value keeps the format string and the arguments of the \<open>fmt.Errorf\<close> that built
  it (\<open>ATypeOf v\<close> is the argument of a \<open>%T\<close> verb). \<open>ClientError\<close> is an error handed
  back by the query client.
\<close>

datatype arg =
    AString string
  | AInt int
  | AValue val
  | ATypeOf val
  | AError error
and error =
    ClientError string
  | ErrorsNew string
  | Errorf string "arg list"

datatype panic = IndexOutOfRange | TypeAssertion | NilDereference

text \<open>
  What a function of the source does: it returns a value, returns an error, panics, or
  (for the loops that depend on the replies of the service) has not returned when the
  bound on the number of loop iterations is reached.
\<close>

datatype 'a outcome = Ok 'a | Failed error | Panic panic | Unfinished

section \<open>Strings\<close>

text \<open>\<open>strings.Join\<close>, \<open>strings.Split\<close> on a one-byte separator, \<open>strings.Contains\<close>,
  \<open>strings.HasPrefix\<close> and \<open>strconv.Itoa\<close>.\<close>

fun Join :: "string list \<Rightarrow> string \<Rightarrow> string" where
  "Join [] sep = []"
| "Join [x] sep = x"
| "Join (x # y # ys) sep = x @ sep @ Join (y # ys) sep"

fun Split :: "string \<Rightarrow> char \<Rightarrow> string list" where
  "Split [] c = [[]]"
| "Split (x # xs) c =
     (if x = c then [] # Split xs c
      else (case Split xs c of [] \<Rightarrow> [[x]] | w # ws \<Rightarrow> (x # w) # ws))"

fun HasPrefix :: "string \<Rightarrow> string \<Rightarrow> bool" where
  "HasPrefix s [] = True"
| "HasPrefix [] (p # ps) = False"
| "HasPrefix (x # xs) (p # ps) = (x = p \<and> HasPrefix xs ps)"

fun Contains :: "string \<Rightarrow> string \<Rightarrow> bool" where
  "Contains [] sub = (sub = [])"
| "Contains (x # xs) sub = (HasPrefix (x # xs) sub \<or> Contains xs sub)"

definition digit :: "nat \<Rightarrow> char" where
  "digit n = ''0123456789'' ! n"

function digits :: "nat \<Rightarrow> string" where
  "digits n = (if n < 10 then [digit n] else digits (n div 10) @ [digit (n mod 10)])"
  by pat_completeness auto
termination
  by (relation "measure id") auto

definition Itoa :: "int \<Rightarrow> string" where
  "Itoa i = (if i < 0 then CHR ''-'' # digits (nat (- i)) else digits (nat i))"

section \<open>The Result Extractor\<close>

text \<open>
  \<open>sliceToMap\<close> is a function of the same package that is defined in another file; the
  code here drops its error result. It is a parameter \<open>s2m\<close> of the model.

  \<open>extractEventsData\<close>, the body of the loop over the rows: \<open>row[0]\<close> and \<open>row[1]\<close> are
  index expressions and \<open>.(uql.ComplexData)\<close>, \<open>.(time.Time)\<close> are unchecked type
  assertions, all of which panic when they fail.
\<close>

fun extractEventsRows ::
  "(val list list \<Rightarrow> attrs) \<Rightarrow> val list list \<Rightarrow> EventsRow list \<Rightarrow> EventsRow list outcome"
where
  "extractEventsRows s2m [] results = Ok results"
| "extractEventsRows s2m (row # rest) results =
     (case row of
        [] \<Rightarrow> Panic IndexOutOfRange
      | c0 # cs \<Rightarrow>
         (case c0 of
            VComplex attributes \<Rightarrow>
              (case cs of
                 [] \<Rightarrow> Panic IndexOutOfRange
               | c1 # _ \<Rightarrow>
                  (case c1 of
                     VTime timestamp \<Rightarrow>
                       extractEventsRows s2m rest
                         (results @ [\<lparr>Timestamp = timestamp, EventAttributes = s2m attributes\<rparr>])
                   | _ \<Rightarrow> Panic TypeAssertion))
          | _ \<Rightarrow> Panic TypeAssertion))"

definition extractEventsData ::
  "(val list list \<Rightarrow> attrs) \<Rightarrow> dataset option \<Rightarrow> EventsRow list outcome"
where
  "extractEventsData s2m dataset =
     (case dataset of
        None \<Rightarrow> Ok []
      | Some d \<Rightarrow> extractEventsRows s2m (Data d) [])"

section \<open>Flags, query documents and the query client\<close>

record eventsFlags =
  clusterId :: string
  namespace :: string
  workloadName :: string
  optimizerId :: string
  since :: string
  until :: string
  count :: int
  follow :: bool
  followInterval :: int
  solutionName :: string

record eventsCmdFlags = eventsFlags +
  includeProgress :: bool
  events :: "string list"

record recommendationsCmdFlags = eventsFlags +
  includeInvalidated :: bool

text \<open>The values of the four templates; the fields carry the first letter of their struct
  (\<open>eventsTemplateValues\<close>, \<open>recommendationsTemplateValues\<close>,
  \<open>optimizationTemplateValues\<close>) since Go reuses the field names.\<close>

record eventsTemplateValues =
  eSince :: string
  eUntil :: string
  eEvents :: string
  eFilter :: string
  eLimits :: string

record recommendationsTemplateValues =
  rSince :: string
  rUntil :: string
  rIncludeInvalidated :: bool
  rFilter :: string
  rLimits :: string
  rSolutionName :: string

record optimizationTemplateValues =
  oSince :: string
  oUntil :: string
  oSolutionName :: string
  oFilter :: string

text \<open>
  A query document is one of the four templates of the file together with the values it
  is executed on: the text sent is a function of the two (\<open>text/template\<close>).
\<close>

datatype query =
    EventsTemplate eventsTemplateValues
  | RecommendationsTemplate recommendationsTemplateValues
  | OptimizationStartedTemplate recommendationsTemplateValues
  | OptimizationTemplate optimizationTemplateValues

datatype call =
    ExecuteQuery query
  | ContinueQuery "dataset option" string

datatype level = LError | LWarn

text \<open>Everything the command does to the outside, in the order it does it.\<close>

datatype event =
    Call call
  | Log level string "arg list"
  | PrintCmdStatus string
  | PrintCmdOutput "EventsRow list" nat
  | PrintCmdOutputCustom "EventsRow list" nat
  | PrintCmdOutputRecommendations "recommendationRow list" nat
  | Sleep int

record response =
  HasErrors :: bool
  Errors :: "(string \<times> string) list"
  Main :: "dataset option"

text \<open>
  What the file takes from outside: \<open>quote\<close> is the \<open>%q\<close> verb of \<open>fmt\<close> on a string,
  \<open>sliceToMap\<close> the helper of the package, and \<open>client\<close> the query client
  \<open>uql.ClientV1\<close>, whose reply to a call may depend on everything that happened before.
\<close>

record extern =
  quote :: "string \<Rightarrow> string"
  sliceToMap :: "val list list \<Rightarrow> attrs"
  client :: "event list \<Rightarrow> call \<Rightarrow> error + response"

definition defaultEvents :: "string list" where
  "defaultEvents =
     [''optimization_baselined'', ''optimization_started'', ''optimization_ended'',
      ''stage_started'', ''stage_ended'', ''experiment_started'', ''experiment_ended'',
      ''experiment_deployment_started'', ''experiment_deployment_completed'',
      ''experiment_measurement_started'', ''experiment_measurement_completed'',
      ''experiment_described'', ''recommendation_identified'', ''recommendation_verified'',
      ''recommendation_invalidated'']"

definition progressEvents :: "string list" where
  "progressEvents = [''optimization_progress'', ''stage_progress'', ''experiment_progress'']"

definition newline :: string where
  "newline = [CHR 0x0A]"

definition tab :: string where
  "tab = [CHR 0x09]"

text \<open>The block \<open>if resp.HasErrors() { log.Error(...); for ... { log.Errorf(...) } }\<close>
  that follows every call of the client.\<close>

definition logErrors :: "string \<Rightarrow> arg list \<Rightarrow> response \<Rightarrow> event list" where
  "logErrors msg args resp =
     (if HasErrors resp
      then Log LError msg args #
           map (\<lambda>e. Log LError ''%s: %s'' [AString (fst e), AString (snd e)]) (Errors resp)
      else [])"

definition hasNext :: "dataset \<Rightarrow> bool" where
  "hasNext d = (map_of (Links d) ''next'' \<noteq> None)"

section \<open>The Entity Resolver\<close>

text \<open>The loop over the rows of a page of \<open>listOptimizations\<close>; \<open>page\<close> is \<open>None\<close> for
  the first page, whose messages carry no page number.\<close>

fun optimizationRows ::
  "nat option \<Rightarrow> val list list \<Rightarrow> nat \<Rightarrow> string list \<Rightarrow> string list outcome"
where
  "optimizationRows page [] index results = Ok results"
| "optimizationRows page (row # rest) index results =
     (case row of
        [] \<Rightarrow>
          Failed (case page of
                    None \<Rightarrow> Errorf ''optimization data row %v has no columns'' [AInt (int index)]
                  | Some p \<Rightarrow> Errorf ''page %v optimization data row %v has no columns''
                               [AInt (int p), AInt (int index)])
      | c0 # _ \<Rightarrow>
         (case c0 of
            VString idStr \<Rightarrow> optimizationRows page rest (Suc index) (results @ [idStr])
          | _ \<Rightarrow>
             Failed (case page of
                       None \<Rightarrow>
                         Errorf ''optimization data row %v value %v (type %T) could not be converted to string''
                           [AInt (int index), AValue c0, ATypeOf c0]
                     | Some p \<Rightarrow>
                         Errorf ''page %v optimization data row %v value %v (type %T) could not be converted to string''
                           [AInt (int p), AInt (int index), AValue c0, ATypeOf c0])))"

text \<open>The loop \<open>for page := 2; next_ok; page++\<close> of \<open>listOptimizations\<close>. The first
  argument bounds the number of iterations.\<close>

fun optimizationPages ::
  "extern \<Rightarrow> nat \<Rightarrow> nat \<Rightarrow> dataset \<Rightarrow> string list \<Rightarrow> event list
     \<Rightarrow> event list \<times> string list outcome"
where
  "optimizationPages x 0 page mainDataSet results tr =
     (if hasNext mainDataSet then (tr, Unfinished) else (tr, Ok results))"
| "optimizationPages x (Suc fuel) page mainDataSet results tr =
     (if \<not> hasNext mainDataSet then (tr, Ok results)
      else
        (case client x tr (ContinueQuery (Some mainDataSet) ''next'') of
           Inl err \<Rightarrow>
             (tr @ [Call (ContinueQuery (Some mainDataSet) ''next'')],
              Failed (Errorf ''page %v uql.ClientV1.ContinueQuery: %w'' [AInt (int page), AError err]))
         | Inr resp \<Rightarrow>
            (let tr1 = tr @ [Call (ContinueQuery (Some mainDataSet) ''next'')] @
                       logErrors ''Continuation of optimization query (page %v) encountered errors. Returned data may not be complete!''
                         [AInt (int page)] resp
             in case Main resp of
                  None \<Rightarrow>
                    (tr1 @ [Log LError ''Continuation of optimization query (page %v) has nil main data. Returned data may not be complete!''
                              [AInt (int page)]],
                     Ok results)
                | Some m \<Rightarrow>
                   (case optimizationRows (Some page) (Data m) 0 results of
                      Ok results' \<Rightarrow> optimizationPages x fuel (Suc page) m results' tr1
                    | Failed e \<Rightarrow> (tr1, Failed e)
                    | Panic p \<Rightarrow> (tr1, Panic p)
                    | Unfinished \<Rightarrow> (tr1, Unfinished)))))"

definition listOptimizations ::
  "extern \<Rightarrow> nat \<Rightarrow> 'a eventsFlags_scheme \<Rightarrow> event list \<Rightarrow> event list \<times> string list outcome"
where
  \<open>listOptimizations x fuel flags tr =
     (let filterList =
            (if namespace flags \<noteq> [] then [''attributes("k8s.namespace.name") = '' @ quote x (namespace flags)] else []) @
            (if workloadName flags \<noteq> [] then [''attributes("k8s.workload.name") = '' @ quote x (workloadName flags)] else [])
      in if length filterList < 1
         then (tr, Failed (ErrorsNew ''sanity check failed, optimizations query must at least filter on namespace or workload name, otherwise this query can be skipped''))
         else
           (let filterList' = filterList @
                  (if clusterId flags \<noteq> [] then [''attributes("k8s.cluster.id") = '' @ quote x (clusterId flags)] else []);
                tempVals = \<lparr>oSince = since flags, oUntil = until flags,
                            oSolutionName = solutionName flags, oFilter = Join filterList' '' && ''\<rparr>;
                query = ExecuteQuery (OptimizationTemplate tempVals)
            in case client x tr query of
                 Inl err \<Rightarrow> (tr @ [Call query], Failed (Errorf ''uql.ClientV1.ExecuteQuery: %w'' [AError err]))
               | Inr resp \<Rightarrow>
                  (let tr1 = tr @ [Call query] @
                             logErrors ''Execution of optimization query encountered errors. Returned data may not be complete!'' [] resp
                   in case Main resp of
                        None \<Rightarrow> (tr1, Ok [])
                      | Some mainDataSet \<Rightarrow>
                         (case optimizationRows None (Data mainDataSet) 0 [] of
                            Ok results \<Rightarrow> optimizationPages x fuel 2 mainDataSet results tr1
                          | Failed e \<Rightarrow> (tr1, Failed e)
                          | Panic p \<Rightarrow> (tr1, Panic p)
                          | Unfinished \<Rightarrow> (tr1, Unfinished)))))\<close>

section \<open>Sequencing\<close>

text \<open>\<open>mapOk\<close> carries an error, a panic or an exhausted bound through unchanged;
  \<open>wrapError\<close> is \<open>fmt.Errorf("...: %w", err)\<close> on the error path.\<close>

fun mapOk :: "('a \<Rightarrow> 'b) \<Rightarrow> 'a outcome \<Rightarrow> 'b outcome" where
  "mapOk f (Ok a) = Ok (f a)"
| "mapOk f (Failed e) = Failed e"
| "mapOk f (Panic p) = Panic p"
| "mapOk f Unfinished = Unfinished"

fun wrapError :: "(error \<Rightarrow> error) \<Rightarrow> 'a outcome \<Rightarrow> 'a outcome" where
  "wrapError w (Failed e) = Failed (w e)"
| "wrapError w r = r"

section \<open>Filter predicate, first page and pagination\<close>

text \<open>
  Lines 171 to 189 of \<open>listEvents\<close>, which are lines 472 to 490 of
  \<open>listRecommendations\<close> word for word: the predicate. \<open>Ok None\<close> is the early
  \<open>return nil\<close> after the status line; \<open>Ok (Some f)\<close> is the value of \<open>tempVals.Filter\<close>.
\<close>

definition noEntities :: event where
  "noEntities = PrintCmdStatus (''No optimization entities found matching the given criteria'' @ newline)"

definition countsTooHigh :: error where
  "countsTooHigh = ErrorsNew ''counts higher than 1000 are not supported''"

definition compileFilter ::
  "extern \<Rightarrow> nat \<Rightarrow> 'a eventsFlags_scheme \<Rightarrow> event list \<Rightarrow> event list \<times> string option outcome"
where
  \<open>compileFilter x fuel flags tr =
     (let filterList =
            (if clusterId flags \<noteq> [] then [''attributes(k8s.cluster.id) = '' @ quote x (clusterId flags)] else [])
      in if optimizerId flags \<noteq> []
         then (tr, Ok (Some (Join (filterList @
                 [''attributes(optimize.optimization.optimizer_id) = '' @ quote x (optimizerId flags)]) '' && '')))
         else if namespace flags \<noteq> [] \<or> workloadName flags \<noteq> []
         then
           (case listOptimizations x fuel flags tr of
              (tr1, Ok optimizerIds) \<Rightarrow>
                if length optimizerIds < 1
                then (tr1 @ [noEntities], Ok None)
                else (tr1, Ok (Some (Join (filterList @
                        [''attributes(optimize.optimization.optimizer_id) IN ["'' @
                         Join optimizerIds ''", "'' @ ''"]'']) '' && '')))
            | (tr1, r) \<Rightarrow>
                (tr1, wrapError (\<lambda>err. Errorf ''listOptimizations: %w'' [AError err]) (mapOk (\<lambda>_. None) r)))
         else (tr, Ok (Some (Join filterList '' && ''))))\<close>

text \<open>Lines 191 to 196 (and 492 to 497): the result cap.\<close>

definition compileLimits :: "int \<Rightarrow> string outcome" where
  "compileLimits n =
     (if n \<noteq> - 1
      then (if n > 1000 then Failed countsTooHigh else Ok (Itoa n))
      else Ok [])"

datatype command = EventsCmd | RecommendationsCmd

fun plural :: "command \<Rightarrow> string" where
  "plural EventsCmd = ''events''"
| "plural RecommendationsCmd = ''recommendations''"

fun singular :: "command \<Rightarrow> string" where
  "singular EventsCmd = ''event''"
| "singular RecommendationsCmd = ''recommendation''"

text \<open>
  The loop \<open>for page := 2; next_ok; page++\<close> (lines 248 to 281 and 545 to 578, which differ
  in the word \<open>events\<close> or \<open>recommendations\<close> of two log messages). Line 280 reads
  \<open>data_set.Links\<close> with no nil check.
\<close>

fun paginate ::
  "extern \<Rightarrow> command \<Rightarrow> nat \<Rightarrow> nat \<Rightarrow> dataset option \<Rightarrow> EventsRow list \<Rightarrow> bool \<Rightarrow> event list
     \<Rightarrow> event list \<times> (EventsRow list \<times> dataset option) outcome"
where
  "paginate x cmd fuel page data_set eventRows False tr = (tr, Ok (eventRows, data_set))"
| "paginate x cmd 0 page data_set eventRows True tr = (tr, Unfinished)"
| "paginate x cmd (Suc fuel) page data_set eventRows True tr =
     (case client x tr (ContinueQuery data_set ''next'') of
        Inl err \<Rightarrow>
          (tr @ [Call (ContinueQuery data_set ''next'')],
           Failed (Errorf ''page %v uql.ClientV1.ContinueQuery: %w'' [AInt (int page), AError err]))
      | Inr resp \<Rightarrow>
         (let tr1 = tr @ [Call (ContinueQuery data_set ''next'')] @
                    logErrors (''Continuation of '' @ plural cmd @
                               '' query (page %v) encountered errors. Returned data may not be complete!'')
                      [AInt (int page)] resp
          in case Main resp of
               None \<Rightarrow>
                 (tr1 @ [Log LError (''Continuation of '' @ plural cmd @
                                    '' query (page %v) has nil main data. Returned data may not be complete!'')
                           [AInt (int page)]],
                  Ok (eventRows, data_set))
             | Some main_data_set \<Rightarrow>
                (case Data main_data_set of
                   [] \<Rightarrow>
                     (tr1, Failed (Errorf ''page %v main dataset %v has no rows''
                                     [AInt (int page), AString (Name main_data_set)]))
                 | row0 # _ \<Rightarrow>
                    (case row0 of
                       [] \<Rightarrow>
                         (tr1, Failed (Errorf ''page %v main dataset %v first row has no columns''
                                         [AInt (int page), AString (Name main_data_set)]))
                     | c0 # _ \<Rightarrow>
                        (case c0 of
                           VDataSet data_set' \<Rightarrow>
                             (case extractEventsData (sliceToMap x) data_set' of
                                Ok newRows \<Rightarrow>
                                  (case data_set' of
                                     None \<Rightarrow> (tr1, Panic NilDereference)
                                   | Some d \<Rightarrow>
                                       paginate x cmd fuel (Suc page) data_set' (eventRows @ newRows)
                                         (hasNext d) tr1)
                              | r \<Rightarrow>
                                  (tr1, wrapError (\<lambda>err. Errorf ''page %v extractEventsData: %w''
                                                           [AInt (int page), AError err])
                                          (mapOk (\<lambda>_. (eventRows, data_set)) r)))
                         | _ \<Rightarrow>
                             (tr1, Failed (Errorf ''page %v main dataset %v first row first column (type %T) could not be converted to *uql.DataSet''
                                             [AInt (int page), AString (Name main_data_set), ATypeOf c0])))))))"

text \<open>The log lines after the main query, when its response reports errors.\<close>

definition executionErrors :: "command \<Rightarrow> response \<Rightarrow> event list" where
  "executionErrors cmd resp =
     logErrors (''Execution of '' @ plural cmd @
                '' query encountered errors. Returned data may not be complete!'') [] resp"

text \<open>
  Lines 205 to 281 (and 506 to 578): the main query, the checks on its first page, the rows
  of that page and the pages after it. \<open>skipPagination\<close> is what resets \<open>next_ok\<close>:
  \<open>flags.count != -1\<close>, and in \<open>listEvents\<close> also \<open>flags.follow\<close>. \<open>Ok None\<close> is the
  early \<open>return nil\<close> after the status line.
\<close>

definition fetchPages ::
  "extern \<Rightarrow> command \<Rightarrow> nat \<Rightarrow> query \<Rightarrow> bool \<Rightarrow> event list
     \<Rightarrow> event list \<times> (EventsRow list \<times> dataset option) option outcome"
where
  "fetchPages x cmd fuel query skipPagination tr =
     (case client x tr (ExecuteQuery query) of
        Inl err \<Rightarrow>
          (tr @ [Call (ExecuteQuery query)],
           Failed (Errorf ''uql.ClientV1.ExecuteQuery: %w'' [AError err]))
      | Inr resp \<Rightarrow>
         (let tr1 = tr @ [Call (ExecuteQuery query)] @ executionErrors cmd resp;
              noResults = PrintCmdStatus (''No '' @ singular cmd @ '' results found for given input'' @ newline)
          in case Main resp of
               None \<Rightarrow> (tr1 @ [noResults], Ok None)
             | Some main_data_set \<Rightarrow>
                (case Data main_data_set of
                   [] \<Rightarrow> (tr1 @ [noResults], Ok None)
                 | row0 # _ \<Rightarrow>
                    (case row0 of
                       [] \<Rightarrow>
                         (tr1, Failed (Errorf ''main dataset %v first row has no columns''
                                         [AString (Name main_data_set)]))
                     | c0 # _ \<Rightarrow>
                        (case c0 of
                           VDataSet data_set \<Rightarrow>
                             (case extractEventsData (sliceToMap x) data_set of
                                Ok eventRows \<Rightarrow>
                                  (let next_ok = (case data_set of None \<Rightarrow> False | Some d \<Rightarrow> hasNext d);
                                       next_ok' = (if skipPagination then False else next_ok);
                                       r = paginate x cmd fuel 2 data_set eventRows next_ok' tr1
                                   in (fst r, mapOk Some (snd r)))
                              | r \<Rightarrow>
                                  (tr1, wrapError (\<lambda>err. Errorf ''extractEventsData: %w'' [AError err])
                                          (mapOk (\<lambda>_. None) r)))
                         | _ \<Rightarrow>
                             (tr1, Failed (Errorf ''main dataset %v first row first column (type %T) could not be converted to *uql.DataSet''
                                             [AString (Name main_data_set), ATypeOf c0])))))))"

section \<open>The Follower\<close>

record followEventResult =
  data_set :: "dataset option"
  err :: "error option"
  cursorExhausted :: bool

text \<open>The log lines of a poll: for a response that reports errors, and for one without
  main data set.\<close>

definition followErrors :: "response \<Rightarrow> event list" where
  "followErrors resp =
     logErrors ''Following of events query encountered errors. Returned data may not be complete!'' [] resp"

definition followNilMain :: event where
  "followNilMain =
     Log LError ''Following of events query has nil main data. Returned data may not be complete!'' []"

text \<open>\<open>followDatasetAndPrint\<close>: one poll of the \<open>follow\<close> link. A panic of
  \<open>extractEventsData\<close> is a panic of the poll.\<close>

definition followDatasetAndPrint ::
  "extern \<Rightarrow> dataset option \<Rightarrow> event list \<Rightarrow> event list \<times> followEventResult outcome"
where
  "followDatasetAndPrint x ds tr =
     (case client x tr (ContinueQuery ds ''follow'') of
        Inl e \<Rightarrow>
          (tr @ [Call (ContinueQuery ds ''follow'')],
           Ok \<lparr>data_set = None,
               err = Some (Errorf ''follow uql.ClientV1.ContinueQuery: %w'' [AError e]),
               cursorExhausted = False\<rparr>)
      | Inr resp \<Rightarrow>
         (let tr1 = tr @ [Call (ContinueQuery ds ''follow'')] @ followErrors resp
          in case Main resp of
               None \<Rightarrow>
                 (tr1 @ [followNilMain],
                  Ok \<lparr>data_set = ds, err = None, cursorExhausted = False\<rparr>)
             | Some main_data_set \<Rightarrow>
                (case Data main_data_set of
                   [] \<Rightarrow>
                     (tr1, Ok \<lparr>data_set = None,
                               err = Some (Errorf ''follow main dataset %v has no rows''
                                             [AString (Name main_data_set)]),
                               cursorExhausted = False\<rparr>)
                 | row0 # _ \<Rightarrow>
                    (case row0 of
                       [] \<Rightarrow>
                         (tr1, Ok \<lparr>data_set = None,
                                   err = Some (Errorf ''follow main dataset %v first row has no columns''
                                                 [AString (Name main_data_set)]),
                                   cursorExhausted = False\<rparr>)
                     | c0 # _ \<Rightarrow>
                        (case c0 of
                           VDataSet ds' \<Rightarrow>
                             (case extractEventsData (sliceToMap x) ds' of
                                Ok newRows \<Rightarrow>
                                  if length newRows > 0
                                  then (tr1 @ [PrintCmdOutputCustom newRows (length newRows)],
                                        Ok \<lparr>data_set = ds', err = None, cursorExhausted = False\<rparr>)
                                  else (tr1, Ok \<lparr>data_set = ds', err = None, cursorExhausted = True\<rparr>)
                              | Failed e \<Rightarrow>
                                  (tr1, Ok \<lparr>data_set = ds',
                                            err = Some (Errorf ''follow extractEventsData: %w'' [AError e]),
                                            cursorExhausted = False\<rparr>)
                              | Panic p \<Rightarrow> (tr1, Panic p)
                              | Unfinished \<Rightarrow> (tr1, Unfinished))
                         | _ \<Rightarrow>
                             (tr1, Ok \<lparr>data_set = None,
                                       err = Some (Errorf ''follow main dataset %v first row first column (type %T) could not be converted to *uql.DataSet''
                                                     [AString (Name main_data_set), ATypeOf c0]),
                                       cursorExhausted = False\<rparr>))))))"

text \<open>The function literal of lines 307 to 314, which the loop starts for each result it
  receives: the sleep, when the cursor is exhausted, and then the poll.\<close>

definition followTask ::
  "extern \<Rightarrow> 'a eventsFlags_scheme \<Rightarrow> followEventResult \<Rightarrow> event list
     \<Rightarrow> event list \<times> followEventResult outcome"
where
  "followTask x flags followResult tr =
     followDatasetAndPrint x (data_set followResult)
       (if cursorExhausted followResult then tr @ [Sleep (followInterval flags)] else tr)"

text \<open>
  The loop of lines 296 to 316. The channel \<open>followChan\<close> holds one result at a time and
  a task is started only when the loop has received the result of the task before, so at
  every \<open>select\<close> there is at most one task, the one started just before it. The state of
  the loop at a \<open>select\<close> is the trace when the loop reached it, and the task in flight:
  the events the task makes and the result it sends to \<open>followChan\<close>. At the first
  \<open>select\<close> no task is in flight, and the result is the one line 294 has put into the
  channel.

  What the \<open>select\<close> number \<open>n\<close> receives is given from outside, by \<open>sel n\<close>:
  \<open>Result\<close>, the result of the task in flight, after the task has made all its events; or
  \<open>Signal k\<close>, a value of the channel \<open>interrupt\<close>, when the task in flight has made the
  first \<open>k\<close> of its events (all of them when it makes no more than \<open>k\<close>; a task that
  has panicked by then has ended the process, so the signal is not received). The command
  returns from the \<open>select\<close> that receives the signal, and the trace ends there.
\<close>

datatype selected = Result | Signal nat

definition taskRun ::
  "extern \<Rightarrow> 'a eventsFlags_scheme \<Rightarrow> followEventResult \<Rightarrow> event list
     \<Rightarrow> event list \<times> followEventResult outcome"
where
  "taskRun x flags followResult tr =
     (drop (length tr) (fst (followTask x flags followResult tr)),
      snd (followTask x flags followResult tr))"

text \<open>One \<open>select\<close>: either the command returns (\<open>Inl\<close>), or a task is to be started for
  the result received (\<open>Inr\<close>).\<close>

definition selectStep ::
  "(nat \<Rightarrow> selected) \<Rightarrow> nat \<Rightarrow> event list \<times> followEventResult outcome \<Rightarrow> event list
     \<Rightarrow> (event list \<times> unit outcome) + (event list \<times> followEventResult)"
where
  "selectStep sel n task tr =
     (case sel n of
        Signal k \<Rightarrow>
          if k < length (fst task) then Inl (tr @ take k (fst task), Ok ())
          else
            (case snd task of
               Panic p \<Rightarrow> Inl (tr @ fst task, Panic p)
             | _ \<Rightarrow> Inl (tr @ fst task, Ok ()))
      | Result \<Rightarrow>
         (case snd task of
            Ok followResult \<Rightarrow>
              (case err followResult of
                 Some e \<Rightarrow> Inl (tr @ fst task, Failed e)
               | None \<Rightarrow> Inr (tr @ fst task, followResult))
          | Failed e \<Rightarrow> Inl (tr @ fst task, Failed e)
          | Panic p \<Rightarrow> Inl (tr @ fst task, Panic p)
          | Unfinished \<Rightarrow> Inl (tr @ fst task, Unfinished)))"

text \<open>The first number bounds the number of tasks started.\<close>

fun followLoop ::
  "extern \<Rightarrow> 'a eventsFlags_scheme \<Rightarrow> (nat \<Rightarrow> selected) \<Rightarrow> nat \<Rightarrow> nat
     \<Rightarrow> event list \<times> followEventResult outcome \<Rightarrow> event list \<Rightarrow> event list \<times> unit outcome"
where
  "followLoop x flags sel 0 n task tr =
     (case selectStep sel n task tr of
        Inl returned \<Rightarrow> returned
      | Inr (tr', followResult) \<Rightarrow> (tr', Unfinished))"
| "followLoop x flags sel (Suc fuel) n task tr =
     (case selectStep sel n task tr of
        Inl returned \<Rightarrow> returned
      | Inr (tr', followResult) \<Rightarrow>
          followLoop x flags sel fuel (Suc n) (taskRun x flags followResult tr') tr')"

section \<open>The events command\<close>

text \<open>The fields of \<open>tempVals\<close> in \<open>listEvents\<close> (lines 157 to 196).\<close>

definition eventsTempVals ::
  "'a eventsCmdFlags_scheme \<Rightarrow> string \<Rightarrow> string \<Rightarrow> eventsTemplateValues"
where
  "eventsTempVals flags predicate limits =
     (let events' = (if includeProgress flags then events flags @ progressEvents else events flags);
          fullyQualifiedEvents = map (\<lambda>value. solutionName flags @ '':'' @ value) events'
      in \<lparr>eSince = since flags, eUntil = until flags,
          eEvents = Join fullyQualifiedEvents ('','' @ newline @ tab @ tab),
          eFilter = predicate, eLimits = limits\<rparr>)"

definition listEvents ::
  "extern \<Rightarrow> nat \<Rightarrow> (nat \<Rightarrow> selected) \<Rightarrow> 'a eventsCmdFlags_scheme \<Rightarrow> event list
     \<Rightarrow> event list \<times> unit outcome"
where
  "listEvents x fuel sel flags tr =
     (case compileFilter x fuel flags tr of
        (tr1, Ok None) \<Rightarrow> (tr1, Ok ())
      | (tr1, Ok (Some predicate)) \<Rightarrow>
         (case compileLimits (count flags) of
            Ok limits \<Rightarrow>
              (case fetchPages x EventsCmd fuel (EventsTemplate (eventsTempVals flags predicate limits))
                      (count flags \<noteq> - 1 \<or> follow flags) tr1 of
                 (tr2, Ok None) \<Rightarrow> (tr2, Ok ())
               | (tr2, Ok (Some (eventRows, ds))) \<Rightarrow>
                  (let tr3 = tr2 @ [PrintCmdOutput eventRows (length eventRows)]
                   in if follow flags \<and> ds \<noteq> None
                      then followLoop x flags sel fuel 0
                             ([], Ok \<lparr>data_set = ds, err = None, cursorExhausted = False\<rparr>) tr3
                      else (tr3, Ok ()))
               | (tr2, r) \<Rightarrow> (tr2, mapOk (\<lambda>_. ()) r))
          | r \<Rightarrow> (tr1, mapOk (\<lambda>_. ()) r))
      | (tr1, r) \<Rightarrow> (tr1, mapOk (\<lambda>_. ()) r))"

section \<open>The Blocker Joiner\<close>

text \<open>An index expression \<open>m[k]\<close> on a map gives the nil interface for a missing key.\<close>

definition lookup :: "attrs \<Rightarrow> string \<Rightarrow> val" where
  "lookup m k = (case map_of m k of None \<Rightarrow> VNil | Some v \<Rightarrow> v)"

text \<open>\<open>fmt.Sprintf("%s-%s", optimizerId.(string), optimizationNum.(string))\<close>: the two
  type assertions are unchecked.\<close>

definition uniqueKey :: "val \<Rightarrow> val \<Rightarrow> string outcome" where
  "uniqueKey optimizer_id optimization_num =
     (case optimizer_id of
        VString a \<Rightarrow>
          (case optimization_num of
             VString b \<Rightarrow> Ok (a @ ''-'' @ b)
           | _ \<Rightarrow> Panic TypeAssertion)
      | _ \<Rightarrow> Panic TypeAssertion)"

text \<open>\<open>extractStartedBlockersData\<close>: the lookup, one entry per started event.\<close>

definition ignoredBlockers :: "attrs \<Rightarrow> attrs" where
  "ignoredBlockers attributesMap =
     fold (\<lambda>e newAttributes.
             if HasPrefix (fst e) ''optimize.ignored_blockers''
             then AList.update (fst e) (snd e) newAttributes else newAttributes)
       attributesMap []"

fun extractStartedBlockersRows ::
  "(val list list \<Rightarrow> attrs) \<Rightarrow> val list list \<Rightarrow> (string \<times> attrs) list
     \<Rightarrow> (string \<times> attrs) list outcome"
where
  "extractStartedBlockersRows s2m [] results = Ok results"
| "extractStartedBlockersRows s2m (row # rest) results =
     (case row of
        [] \<Rightarrow> Panic IndexOutOfRange
      | c0 # _ \<Rightarrow>
         (case c0 of
            VComplex attributes \<Rightarrow>
              (let attributesMap = s2m attributes;
                   newAttributes = ignoredBlockers attributesMap
               in case uniqueKey (lookup attributesMap ''optimize.optimization.optimizer_id'')
                         (lookup attributesMap ''optimize.optimization.num'') of
                    Ok key \<Rightarrow>
                      extractStartedBlockersRows s2m rest (AList.update key newAttributes results)
                  | r \<Rightarrow> mapOk (\<lambda>_. results) r)
          | _ \<Rightarrow> Panic TypeAssertion))"

definition extractStartedBlockersData ::
  "(val list list \<Rightarrow> attrs) \<Rightarrow> dataset option \<Rightarrow> (string \<times> attrs) list outcome"
where
  "extractStartedBlockersData s2m dataset =
     (case dataset of
        None \<Rightarrow> Ok []
      | Some d \<Rightarrow> extractStartedBlockersRows s2m (Data d) [])"

definition startedErrors :: "response \<Rightarrow> event list" where
  "startedErrors resp =
     logErrors ''Execution of optimization_started query encountered errors. Returned data may not be complete!'' [] resp"

definition getOptimizationBlockerData ::
  "extern \<Rightarrow> recommendationsTemplateValues \<Rightarrow> event list
     \<Rightarrow> event list \<times> (string \<times> attrs) list outcome"
where
  "getOptimizationBlockerData x tempVals tr =
     (case client x tr (ExecuteQuery (OptimizationStartedTemplate tempVals)) of
        Inl e \<Rightarrow>
          (tr @ [Call (ExecuteQuery (OptimizationStartedTemplate tempVals))],
           Failed (Errorf ''uql.ExecuteQuery: %w'' [AError e]))
      | Inr resp \<Rightarrow>
         (let tr1 = tr @ [Call (ExecuteQuery (OptimizationStartedTemplate tempVals))] @ startedErrors resp
          in case Main resp of
               None \<Rightarrow> (tr1, Failed (Errorf ''no optimization_started results found for given input'' []))
             | Some main_data_set \<Rightarrow>
                (case Data main_data_set of
                   [] \<Rightarrow> (tr1, Failed (Errorf ''no optimization_started results found for given input'' []))
                 | row0 # _ \<Rightarrow>
                    (case row0 of
                       [] \<Rightarrow>
                         (tr1, Failed (Errorf ''main dataset %v first row has no columns''
                                         [AString (Name main_data_set)]))
                     | c0 # _ \<Rightarrow>
                        (case c0 of
                           VDataSet ds \<Rightarrow>
                             (tr1, wrapError (\<lambda>e. Errorf ''extractStartedBlockersData: %w'' [AError e])
                                     (extractStartedBlockersData (sliceToMap x) ds))
                         | _ \<Rightarrow>
                             (tr1, Failed (Errorf ''main dataset %v first row first column (type %T) could not be converted to *uql.DataSet''
                                             [AString (Name main_data_set), ATypeOf c0])))))))"

text \<open>
  Lines 604 to 617, the body of the loop over the attributes of the started event: the
  state is the pair of \<open>BlockersAttributes\<close> and \<open>Blockers\<close> of the row being built.
\<close>

definition blockerStep :: "string \<times> val \<Rightarrow> attrs \<times> string list \<Rightarrow> attrs \<times> string list" where
  "blockerStep e acc =
     (let attr = fst e;
          blockersAttributes = AList.update attr (snd e) (fst acc);
          blockers = snd acc
      in if \<not> Contains attr ''principal''
         then
           (let splitAttr = Split attr CHR ''.''
            in if length splitAttr > 3
               then
                 (let blockerID = splitAttr ! (length splitAttr - 2)
                  in if \<not> Contains (Join blockers '','') blockerID
                     then (blockersAttributes, blockers @ [blockerID])
                     else (blockersAttributes, blockers))
               else (blockersAttributes, blockers))
         else (blockersAttributes, blockers))"

definition mergeBlockers :: "attrs \<Rightarrow> attrs \<times> string list" where
  "mergeBlockers startedRow = fold blockerStep startedRow ([], [])"

text \<open>Lines 590 to 624, the body of the loop over the recommendation rows: the events it
  logs and the row it appends.\<close>

definition joinRow ::
  "(string \<times> attrs) list \<Rightarrow> EventsRow \<Rightarrow> event list \<times> recommendationRow outcome"
where
  "joinRow blockerRows row =
     (let optimizer_id = lookup (EventAttributes row) ''optimize.optimization.optimizer_id'';
          optimization_num = lookup (EventAttributes row) ''optimize.optimization.num''
      in case uniqueKey optimizer_id optimization_num of
           Ok key \<Rightarrow>
             (case map_of blockerRows key of
                None \<Rightarrow>
                  ([Log LWarn ''No optimization_started event found for recommendation with optimizer_id: %v and num: %v''
                      [AValue optimizer_id, AValue optimization_num]],
                   Ok \<lparr>Timestamp = Timestamp row, EventAttributes = EventAttributes row,
                       BlockersAttributes = [], BlockersPresent = ''false'', Blockers = []\<rparr>)
              | Some startedRow \<Rightarrow>
                  ([],
                   Ok \<lparr>Timestamp = Timestamp row, EventAttributes = EventAttributes row,
                       BlockersAttributes = fst (mergeBlockers startedRow),
                       BlockersPresent =
                         (if length (snd (mergeBlockers startedRow)) > 0 then ''true'' else ''false''),
                       Blockers = snd (mergeBlockers startedRow)\<rparr>))
         | Failed e \<Rightarrow> ([], Failed e)
         | Panic p \<Rightarrow> ([], Panic p)
         | Unfinished \<Rightarrow> ([], Unfinished))"

fun joinRows ::
  "(string \<times> attrs) list \<Rightarrow> EventsRow list \<Rightarrow> recommendationRow list \<Rightarrow> event list
     \<Rightarrow> event list \<times> recommendationRow list outcome"
where
  "joinRows blockerRows [] acc tr = (tr, Ok acc)"
| "joinRows blockerRows (row # rest) acc tr =
     (case joinRow blockerRows row of
        (logs, Ok r) \<Rightarrow> joinRows blockerRows rest (acc @ [r]) (tr @ logs)
      | (logs, r) \<Rightarrow> (tr @ logs, mapOk (\<lambda>_. acc) r))"

section \<open>The recommendations command\<close>

text \<open>The fields of \<open>tempVals\<close> in \<open>listRecommendations\<close> (lines 465 to 497).\<close>

definition recTempVals ::
  "'a recommendationsCmdFlags_scheme \<Rightarrow> string \<Rightarrow> string \<Rightarrow> recommendationsTemplateValues"
where
  "recTempVals flags predicate limits =
     \<lparr>rSince = since flags, rUntil = until flags, rIncludeInvalidated = includeInvalidated flags,
      rFilter = predicate, rLimits = limits, rSolutionName = solutionName flags\<rparr>"

definition listRecommendations ::
  "extern \<Rightarrow> nat \<Rightarrow> 'a recommendationsCmdFlags_scheme \<Rightarrow> event list \<Rightarrow> event list \<times> unit outcome"
where
  "listRecommendations x fuel flags tr =
     (case compileFilter x fuel flags tr of
        (tr1, Ok None) \<Rightarrow> (tr1, Ok ())
      | (tr1, Ok (Some predicate)) \<Rightarrow>
         (case compileLimits (count flags) of
            Ok limits \<Rightarrow>
              (let tempVals = recTempVals flags predicate limits
               in case fetchPages x RecommendationsCmd fuel (RecommendationsTemplate tempVals)
                         (count flags \<noteq> - 1) tr1 of
                    (tr2, Ok None) \<Rightarrow> (tr2, Ok ())
                  | (tr2, Ok (Some (recommendationRows, ds))) \<Rightarrow>
                     (case getOptimizationBlockerData x tempVals tr2 of
                        (tr3, Ok blockerRows) \<Rightarrow>
                          (case joinRows blockerRows recommendationRows [] tr3 of
                             (tr4, Ok rows) \<Rightarrow>
                               (tr4 @ [PrintCmdOutputRecommendations rows (length rows)], Ok ())
                           | (tr4, r) \<Rightarrow> (tr4, mapOk (\<lambda>_. ()) r))
                      | (tr3, r) \<Rightarrow>
                          (tr3, wrapError
                                  (\<lambda>e. Errorf ''failed to retrieve optimization_started blocker data: %v'' [AError e])
                                  (mapOk (\<lambda>_. ()) r)))
                  | (tr2, r) \<Rightarrow> (tr2, mapOk (\<lambda>_. ()) r))
          | r \<Rightarrow> (tr1, mapOk (\<lambda>_. ()) r))
      | (tr1, r) \<Rightarrow> (tr1, mapOk (\<lambda>_. ()) r))"

section \<open>What the specification says of the blocker identifiers\<close>

text \<open>
  The second-to-last segment of a dotted attribute name, the insertion of an identifier
  that is not yet present (exact match, at the end), and the identifiers the
  specification takes: one for every attribute name without \<open>principal\<close>
  (\<open>claimedIds\<close>). \<open>candidateIds\<close> are the names that also have more than three
  segments, which is the guard of line 610. \<open>wellSeparated\<close> identifiers are not empty,
  hold no comma, and none is a part of another.
\<close>

definition secondToLast :: "string \<Rightarrow> string" where
  "secondToLast attr = Split attr CHR ''.'' ! (length (Split attr CHR ''.'') - 2)"

definition addOnce :: "string list \<Rightarrow> string \<Rightarrow> string list" where
  "addOnce ids i = (if i \<in> set ids then ids else ids @ [i])"

definition claimedIds :: "string list \<Rightarrow> string list" where
  "claimedIds names = map secondToLast (filter (\<lambda>a. \<not> Contains a ''principal'') names)"

definition candidateIds :: "string list \<Rightarrow> string list" where
  "candidateIds names =
     map secondToLast
       (filter (\<lambda>a. \<not> Contains a ''principal'' \<and> length (Split a CHR ''.'') > 3) names)"

definition wellSeparated :: "string list \<Rightarrow> bool" where
  "wellSeparated ids =
     (\<forall>a\<in>set ids. a \<noteq> [] \<and> CHR '','' \<notin> set a \<and> (\<forall>b\<in>set ids. Contains b a \<longrightarrow> a = b))"

definition specBlockers :: "string list \<Rightarrow> string list" where
  "specBlockers ids = foldl addOnce [] ids"


text \<open>The calls of a trace. \<open>cappedRun\<close> is what a run with a result cap above 1000 does,
  as C1 is amended; \<open>noStartedResults\<close> is the error of C10.\<close>

definition calls :: "event list \<Rightarrow> call list" where
  "calls tr = concat (map (\<lambda>e. case e of Call c \<Rightarrow> [c] | _ \<Rightarrow> []) tr)"

definition cappedRun ::
  "extern \<Rightarrow> nat \<Rightarrow> 'a eventsFlags_scheme \<Rightarrow> event list \<Rightarrow> event list \<times> unit outcome"
where
  "cappedRun x fuel flags tr =
     (if optimizerId flags \<noteq> [] \<or> (namespace flags = [] \<and> workloadName flags = [])
      then (tr, Failed countsTooHigh)
      else
        (case listOptimizations x fuel flags tr of
           (tr1, Ok optimizerIds) \<Rightarrow>
             if optimizerIds = [] then (tr1 @ [noEntities], Ok ()) else (tr1, Failed countsTooHigh)
         | (tr1, Failed e) \<Rightarrow> (tr1, Failed (Errorf ''listOptimizations: %w'' [AError e]))
         | (tr1, Panic p) \<Rightarrow> (tr1, Panic p)
         | (tr1, Unfinished) \<Rightarrow> (tr1, Unfinished)))"

definition noStartedResults :: error where
  "noStartedResults =
     Errorf ''failed to retrieve optimization_started blocker data: %v''
       [AError (Errorf ''no optimization_started results found for given input'' [])]"


text \<open>An event that is not a request for the \<open>next\<close> page, and the event row inside a
  recommendation row.\<close>

fun notNext :: "event \<Rightarrow> bool" where
  "notNext (Call (ContinueQuery ds l)) = (l \<noteq> ''next'')"
| "notNext e = True"

definition eventsRowOf :: "recommendationRow \<Rightarrow> EventsRow" where
  "eventsRowOf r = \<lparr>Timestamp = Timestamp r, EventAttributes = EventAttributes r\<rparr>"

text \<open>The calls of the Entity Resolver: its query and the requests for its next pages.
  A row of the shape the Result Extractor expects, and the event row it gives.\<close>

fun resolverCall :: "call \<Rightarrow> bool" where
  "resolverCall (ExecuteQuery (OptimizationTemplate v)) = True"
| "resolverCall (ContinueQuery ds l) = (l = ''next'')"
| "resolverCall c = False"

definition wellShaped :: "val list \<Rightarrow> bool" where
  "wellShaped row = (case row of VComplex a # VTime t # _ \<Rightarrow> True | _ \<Rightarrow> False)"

definition rowOf :: "(val list list \<Rightarrow> attrs) \<Rightarrow> val list \<Rightarrow> EventsRow" where
  "rowOf s2m row =
     (case row of
        VComplex a # VTime t # _ \<Rightarrow> \<lparr>Timestamp = t, EventAttributes = s2m a\<rparr>
      | _ \<Rightarrow> \<lparr>Timestamp = 0, EventAttributes = []\<rparr>)"

section \<open>Inputs of the examples\<close>

text \<open>A recommendation row with both join attributes, the blocker attributes of a started
  event, and a started event with a name of three segments and an identifier that is
  part of another.\<close>

definition exRow :: EventsRow where
  "exRow = \<lparr>Timestamp = 1700000000,
             EventAttributes = [(''optimize.optimization.optimizer_id'', VString ''ns-wl-abc''),
                                (''optimize.optimization.num'', VString ''3'')]\<rparr>"

definition exStarted :: attrs where
  "exStarted =
     [(''optimize.ignored_blockers.cpu-limit.principal'', VString ''alice''),
      (''optimize.ignored_blockers.cpu-limit.reason'', VString ''pinned''),
      (''optimize.ignored_blockers.mem-limit.reason'', VString ''pinned''),
      (''optimize.ignored_blockers.cpu-limit.timestamp'', VString ''2023-07-31'')]"

definition exShortNames :: attrs where
  "exShortNames =
     [(''optimize.ignored_blockers.enabled'', VString ''true''),
      (''optimize.ignored_blockers.cpu-limit.reason'', VString ''pinned''),
      (''optimize.ignored_blockers.cpu.reason'', VString ''pinned'')]"


text \<open>
  The parts taken from outside, for the examples: \<open>%q\<close> on a string without special
  characters, a \<open>sliceToMap\<close> in which a later key overwrites an earlier one, and clients
  that answer by the kind of call.
\<close>

definition exQuote :: "string \<Rightarrow> string" where
  "exQuote s = CHR 0x22 # s @ [CHR 0x22]"

definition exSliceToMap :: "val list list \<Rightarrow> attrs" where
  "exSliceToMap slice =
     fold (\<lambda>pair m. case pair of VString k # v # _ \<Rightarrow> AList.update k v m | _ \<Rightarrow> m) slice []"

definition exExtern :: "(event list \<Rightarrow> call \<Rightarrow> error + response) \<Rightarrow> extern" where
  "exExtern cl = \<lparr>quote = exQuote, sliceToMap = exSliceToMap, client = cl\<rparr>"

definition reply :: "dataset option \<Rightarrow> error + response" where
  "reply m = Inr \<lparr>HasErrors = False, Errors = [], Main = m\<rparr>"

definition mainOf :: "dataset \<Rightarrow> dataset" where
  "mainOf d = DataSet ''main'' [[VDataSet (Some d)]] []"

definition recClient :: "dataset \<Rightarrow> dataset option \<Rightarrow> event list \<Rightarrow> call \<Rightarrow> error + response" where
  "recClient recPage started tr c =
     (case c of
        ExecuteQuery (RecommendationsTemplate _) \<Rightarrow> reply (Some (mainOf recPage))
      | ExecuteQuery (OptimizationStartedTemplate _) \<Rightarrow> reply started
      | _ \<Rightarrow> reply None)"

definition exRecFlags :: recommendationsCmdFlags where
  "exRecFlags =
     \<lparr>clusterId = [], namespace = [], workloadName = [], optimizerId = ''ns-wl-abc'',
      since = ''-52w'', until = [], count = 1, follow = False, followInterval = 60,
      solutionName = ''optimize'', includeInvalidated = False\<rparr>"

definition exRowNoNum :: EventsRow where
  "exRowNoNum = \<lparr>Timestamp = 1700000000,
                  EventAttributes = [(''optimize.optimization.optimizer_id'', VString ''ns-wl-abc'')]\<rparr>"

definition exPageNoNum :: dataset where
  "exPageNoNum =
     DataSet ''events''
       [[VComplex [[VString ''optimize.optimization.optimizer_id'', VString ''ns-wl-abc'']],
         VTime 1700000000]] []"

definition exRecPage :: dataset where
  "exRecPage =
     DataSet ''events''
       [[VComplex [[VString ''optimize.optimization.optimizer_id'', VString ''ns-wl-abc''],
                   [VString ''optimize.optimization.num'', VString ''3'']],
         VTime 1700000000]] [(''next'', ''cursor-2''), (''follow'', ''cursor-f1'')]"

definition exStartedPage :: dataset where
  "exStartedPage =
     DataSet ''events''
       [[VComplex [[VString ''optimize.optimization.optimizer_id'', VString ''ns-wl-abc''],
                   [VString ''optimize.optimization.num'', VString ''3''],
                   [VString ''optimize.ignored_blockers.cpu-limit.reason'', VString ''pinned'']],
         VTime 1690000000]] []"

definition nilClient :: "event list \<Rightarrow> call \<Rightarrow> error + response" where
  "nilClient tr c = reply None"

definition noSignal :: "nat \<Rightarrow> selected" where
  "noSignal n = Result"

definition signalAt :: "nat \<Rightarrow> nat \<Rightarrow> nat \<Rightarrow> selected" where
  "signalAt m k n = (if n = m then Signal k else Result)"

definition exCapFlags :: eventsCmdFlags where
  "exCapFlags =
     \<lparr>clusterId = [], namespace = ''payments'', workloadName = [], optimizerId = [],
      since = ''-7d'', until = [], count = 2000, follow = False, followInterval = 60,
      solutionName = ''optimize'', includeProgress = False, events = defaultEvents\<rparr>"

definition exCapRecFlags :: recommendationsCmdFlags where
  "exCapRecFlags =
     \<lparr>clusterId = [], namespace = ''payments'', workloadName = [], optimizerId = [],
      since = ''-52w'', until = [], count = 2000, follow = False, followInterval = 60,
      solutionName = ''optimize'', includeInvalidated = False\<rparr>"

definition resolverClient :: "string list \<Rightarrow> event list \<Rightarrow> call \<Rightarrow> error + response" where
  "resolverClient ids tr c =
     (case c of
        ExecuteQuery (OptimizationTemplate _) \<Rightarrow>
          reply (Some (DataSet ''main'' (map (\<lambda>i. [VString i]) ids) []))
      | _ \<Rightarrow> reply None)"

definition exNamespaceQuery :: query where
  \<open>exNamespaceQuery =
     OptimizationTemplate
       \<lparr>oSince = ''-7d'', oUntil = [], oSolutionName = ''optimize'',
        oFilter = ''attributes("k8s.namespace.name") = "payments"''\<rparr>\<close>

definition exRecQuery :: recommendationsTemplateValues where
  \<open>exRecQuery =
     \<lparr>rSince = ''-52w'', rUntil = [], rIncludeInvalidated = False,
      rFilter = ''attributes(optimize.optimization.optimizer_id) = "ns-wl-abc"'',
      rLimits = ''1'', rSolutionName = ''optimize''\<rparr>\<close>

text \<open>
  Follow mode: the page behind the follow link of the first page has one row, the page
  behind that one has none, and every later poll is answered by \<open>final\<close>.
\<close>

definition exBatchPage :: dataset where
  "exBatchPage =
     DataSet ''events''
       [[VComplex [[VString ''appd.event.type'', VString ''optimize:stage_started'']],
         VTime 1700000060]] [(''follow'', ''cursor-f2'')]"

definition exBatchRow :: EventsRow where
  "exBatchRow = \<lparr>Timestamp = 1700000060,
                  EventAttributes = [(''appd.event.type'', VString ''optimize:stage_started'')]\<rparr>"

definition exEmptyPage :: dataset where
  "exEmptyPage = DataSet ''events'' [] [(''follow'', ''cursor-f3'')]"

definition cursorClient :: "(error + response) \<Rightarrow> event list \<Rightarrow> call \<Rightarrow> error + response" where
  "cursorClient final tr c =
     (case c of
        ExecuteQuery (OptimizationStartedTemplate _) \<Rightarrow> reply (Some (mainOf exStartedPage))
      | ExecuteQuery _ \<Rightarrow> reply (Some (mainOf exRecPage))
      | ContinueQuery ds l \<Rightarrow>
          if l = ''follow'' \<and> ds = Some exRecPage then reply (Some (mainOf exBatchPage))
          else if l = ''follow'' \<and> ds = Some exBatchPage then reply (Some (mainOf exEmptyPage))
          else final)"

definition exFollowFlags :: eventsCmdFlags where
  "exFollowFlags =
     \<lparr>clusterId = [], namespace = [], workloadName = [], optimizerId = ''ns-wl-abc'',
      since = ''-1h'', until = [], count = - 1, follow = True, followInterval = 60000000000,
      solutionName = ''optimize'', includeProgress = False, events = [''stage_started'']\<rparr>"

definition exEventsQuery :: "string \<Rightarrow> query" where
  \<open>exEventsQuery limits =
     EventsTemplate
       \<lparr>eSince = ''-1h'', eUntil = [], eEvents = ''optimize:stage_started'',
        eFilter = ''attributes(optimize.optimization.optimizer_id) = "ns-wl-abc"'',
        eLimits = limits\<rparr>\<close>

definition exInitial :: followEventResult where
  "exInitial = \<lparr>data_set = Some exRecPage, err = None, cursorExhausted = False\<rparr>"

definition exJoined :: recommendationRow where
  "exJoined =
     \<lparr>Timestamp = 1700000000,
      EventAttributes = [(''optimize.optimization.optimizer_id'', VString ''ns-wl-abc''),
                         (''optimize.optimization.num'', VString ''3'')],
      BlockersAttributes = [(''optimize.ignored_blockers.cpu-limit.reason'', VString ''pinned'')],
      BlockersPresent = ''true'', Blockers = [''cpu-limit'']\<rparr>"

definition exCursor :: extern where
  "exCursor = exExtern (cursorClient (reply None))"

definition exPolled :: "event list" where
  "exPolled = [Call (ContinueQuery (Some exRecPage) ''follow''), PrintCmdOutputCustom [exBatchRow] 1]"

definition exAfterBatch :: followEventResult where
  "exAfterBatch = \<lparr>data_set = Some exBatchPage, err = None, cursorExhausted = False\<rparr>"

definition exExhausted :: followEventResult where
  "exExhausted = \<lparr>data_set = Some exEmptyPage, err = None, cursorExhausted = True\<rparr>"

text \<open>A service that answers the query with a page and every poll without main data set.\<close>

definition noMainClient :: "event list \<Rightarrow> call \<Rightarrow> error + response" where
  "noMainClient tr c =
     (case c of
        ExecuteQuery _ \<Rightarrow> reply (Some (mainOf exRecPage))
      | ContinueQuery _ _ \<Rightarrow> reply None)"

definition exNoRows :: "error + response" where
  "exNoRows = reply (Some (DataSet ''main'' [] []))"

definition exCountFlags :: eventsCmdFlags where
  "exCountFlags = exFollowFlags\<lparr>follow := False, count := 5\<rparr>"

section \<open>Lemmas on strings and association lists\<close>

lemma HasPrefix_prefix: "HasPrefix s p = prefix p s"
  by (induction s p rule: HasPrefix.induct) auto

lemma Contains_sublist: "Contains s sub = sublist sub s"
  by (induction s) (auto simp: HasPrefix_prefix sublist_Cons_right)

lemma sublist_split_at:
  assumes "c \<notin> set a" "sublist a (xs @ c # ys)"
  shows "sublist a xs \<or> sublist a ys"
proof -
  from assms(2) obtain ps ss where eq: "xs @ c # ys = ps @ a @ ss"
    by (auto simp: sublist_def)
  then consider (l) us where "xs = ps @ us" "us @ c # ys = a @ ss"
    | (r) us where "xs @ us = ps" "c # ys = us @ a @ ss"
    by (auto simp: append_eq_append_conv2)
  then show ?thesis
  proof cases
    case l
    from l(2) consider (l1) vs where "us = a @ vs" | (l2) vs where "us @ vs = a" "c # ys = vs @ ss" "vs \<noteq> []"
      by (auto simp: append_eq_append_conv2) (metis append_Nil2)
    then show ?thesis
    proof cases
      case l1
      with l(1) show ?thesis by (auto simp: sublist_def)
    next
      case l2
      then have "c \<in> set a" by (cases vs) auto
      with assms(1) show ?thesis by simp
    qed
  next
    case r
    show ?thesis
    proof (cases us)
      case Nil
      with r(2) have "c # ys = a @ ss" by simp
      with assms(1) have "a = []" by (cases a) auto
      then show ?thesis by simp
    next
      case (Cons u us')
      with r(2) have "ys = us' @ a @ ss" by simp
      then show ?thesis by (auto simp: sublist_def)
    qed
  qed
qed

lemma sublist_Join:
  assumes "a \<noteq> []" "c \<notin> set a" "sublist a (Join bl [c])"
  shows "\<exists>b\<in>set bl. sublist a b"
  using assms
proof (induction bl "[c]" rule: Join.induct)
  case 1
  then show ?case by simp
next
  case (2 x)
  then show ?case by simp
next
  case (3 x y ys)
  then show ?case using sublist_split_at[of c a x "Join (y # ys) [c]"] by auto
qed

lemma Join_member: "a \<in> set bl \<Longrightarrow> sublist a (Join bl sep)"
proof (induction bl sep rule: Join.induct)
  case (3 x y ys sep)
  then show ?case
    by (auto simp: sublist_append)
qed auto

lemma update_new: "k \<notin> fst ` set al \<Longrightarrow> AList.update k v al = al @ [(k, v)]"
  by (induction al) auto


lemma contains_join_iff:
  assumes "wellSeparated S" "set bl \<subseteq> set S" "a \<in> set S"
  shows "Contains (Join bl '','') a \<longleftrightarrow> a \<in> set bl"
proof
  assume "Contains (Join bl '','') a"
  then have "sublist a (Join bl [CHR '',''])" by (simp add: Contains_sublist)
  moreover from assms have "a \<noteq> []" "CHR '','' \<notin> set a" by (auto simp: wellSeparated_def)
  ultimately obtain b where b: "b \<in> set bl" "sublist a b"
    using sublist_Join by blast
  with assms have "a = b" by (auto simp: wellSeparated_def Contains_sublist)
  with b show "a \<in> set bl" by simp
next
  assume "a \<in> set bl"
  then show "Contains (Join bl '','') a" by (simp add: Contains_sublist Join_member)
qed

lemma blockerStep_snd:
  assumes "wellSeparated S" "set bl \<subseteq> set S" "set (candidateIds [fst e]) \<subseteq> set S"
  shows "snd (blockerStep e (ba, bl)) = foldl addOnce bl (candidateIds [fst e])"
proof (cases "\<not> Contains (fst e) ''principal'' \<and> length (Split (fst e) CHR ''.'') > 3")
  case True
  then have c: "candidateIds [fst e] = [secondToLast (fst e)]"
    by (simp add: candidateIds_def)
  with assms(3) have "secondToLast (fst e) \<in> set S" by simp
  from contains_join_iff[OF assms(1,2) this] True c show ?thesis
    by (simp add: blockerStep_def addOnce_def secondToLast_def Let_def)
next
  case False
  then have "candidateIds [fst e] = []"
    by (auto simp: candidateIds_def)
  with False show ?thesis
    by (auto simp: blockerStep_def Let_def)
qed

lemma addOnce_subset: "set bl \<subseteq> S \<Longrightarrow> i \<in> S \<Longrightarrow> set (addOnce bl i) \<subseteq> S"
  by (auto simp: addOnce_def)

lemma candidateIds_Cons: "candidateIds (a # as) = candidateIds [a] @ candidateIds as"
  by (simp add: candidateIds_def)

lemma foldl_addOnce_subset: "set bl \<subseteq> S \<Longrightarrow> set ids \<subseteq> S \<Longrightarrow> set (foldl addOnce bl ids) \<subseteq> S"
  by (induction ids arbitrary: bl) (auto simp: addOnce_def)

lemma blockers_fold:
  assumes "wellSeparated S"
  shows "set bl \<subseteq> set S \<Longrightarrow> set (candidateIds (map fst xs)) \<subseteq> set S \<Longrightarrow>
         snd (fold blockerStep xs (ba, bl)) = foldl addOnce bl (candidateIds (map fst xs))"
proof (induction xs arbitrary: ba bl)
  case Nil
  then show ?case by (simp add: candidateIds_def)
next
  case (Cons e xs)
  have split: "candidateIds (map fst (e # xs)) = candidateIds [fst e] @ candidateIds (map fst xs)"
    using candidateIds_Cons[of "fst e" "map fst xs"] by simp
  with Cons.prems have sub: "set (candidateIds [fst e]) \<subseteq> set S" "set (candidateIds (map fst xs)) \<subseteq> set S"
    by auto
  obtain ba' bl' where step: "blockerStep e (ba, bl) = (ba', bl')" by (cases "blockerStep e (ba, bl)")
  with blockerStep_snd[OF assms Cons.prems(1) sub(1), of ba]
  have bl': "bl' = foldl addOnce bl (candidateIds [fst e])" by simp
  then have "set bl' \<subseteq> set S"
    using foldl_addOnce_subset[OF Cons.prems(1) sub(1)] by simp
  from Cons.IH[OF this sub(2), of ba'] step bl' split show ?case by simp
qed

lemma blockerStep_fst: "fst (blockerStep e acc) = AList.update (fst e) (snd e) (fst acc)"
  by (simp add: blockerStep_def Let_def)

lemma attrs_fold:
  "distinct (map fst xs) \<Longrightarrow> fst ` set xs \<inter> fst ` set (fst acc) = {} \<Longrightarrow>
   fst (fold blockerStep xs acc) = fst acc @ xs"
proof (induction xs arbitrary: acc)
  case Nil
  then show ?case by simp
next
  case (Cons e xs)
  from Cons.prems have new: "fst e \<notin> fst ` set (fst acc)" by auto
  then have upd: "fst (blockerStep e acc) = fst acc @ [e]"
    by (simp add: blockerStep_fst update_new)
  from Cons.prems have "distinct (map fst xs)" "fst ` set xs \<inter> fst ` set (fst (blockerStep e acc)) = {}"
    by (auto simp: upd)
  from Cons.IH[OF this] upd show ?case by simp
qed

lemma mergeBlockers_amended:
  assumes "distinct (map fst startedRow)"
      and "wellSeparated (candidateIds (map fst startedRow))"
  shows "fst (mergeBlockers startedRow) = startedRow"
    and "snd (mergeBlockers startedRow) = specBlockers (candidateIds (map fst startedRow))"
  using attrs_fold[OF assms(1), of "([], [])"] blockers_fold[OF assms(2), of "[]" startedRow "[]"]
  by (simp_all add: mergeBlockers_def specBlockers_def)



section \<open>Lemmas on the trace\<close>

lemma calls_append: "calls (a @ b) = calls a @ calls b"
  by (simp add: calls_def)

lemma calls_Nil: "calls [] = []"
  by (simp add: calls_def)

lemma calls_Cons: "calls (e # tr) = (case e of Call c \<Rightarrow> [c] | _ \<Rightarrow> []) @ calls tr"
  by (simp add: calls_def)

lemma calls_logErrors: "calls (logErrors msg args resp) = []"
  by (induction "Errors resp") (auto simp: calls_def logErrors_def)

lemmas calls_simps = calls_append calls_Nil calls_Cons calls_logErrors

lemma notNext_logErrors: "list_all notNext (logErrors msg args resp)"
  by (auto simp: logErrors_def list_all_iff)

lemma fetchPages_skip_calls:
  "calls (fst (fetchPages x cmd fuel query True tr)) = calls tr @ [ExecuteQuery query]"
  by (auto simp: fetchPages_def executionErrors_def Let_def calls_simps
           split: sum.splits option.splits list.splits val.splits outcome.splits)

lemma fetchPages_first_page:
  assumes "client x tr (ExecuteQuery query) = Inr resp"
      and "Main resp = Some m" and "Data m = (VDataSet ds # cells) # others"
      and "extractEventsData (sliceToMap x) ds = Ok rows"
  shows "fetchPages x cmd fuel query True tr =
           (tr @ [Call (ExecuteQuery query)] @ executionErrors cmd resp, Ok (Some (rows, ds)))"
  using assms by (simp add: fetchPages_def Let_def)

lemma followDatasetAndPrint_notNext:
  "\<exists>new. fst (followDatasetAndPrint x ds tr) = tr @ new \<and> list_all notNext new"
  by (auto simp: followDatasetAndPrint_def followErrors_def followNilMain_def Let_def notNext_logErrors
           split: sum.splits option.splits list.splits val.splits outcome.splits)

lemma followTask_notNext:
  "\<exists>new. fst (followTask x flags r tr) = tr @ new \<and> list_all notNext new"
proof (cases "cursorExhausted r")
  case True
  from followDatasetAndPrint_notNext[of x "data_set r" "tr @ [Sleep (followInterval flags)]"]
  obtain new where "fst (followDatasetAndPrint x (data_set r) (tr @ [Sleep (followInterval flags)]))
      = (tr @ [Sleep (followInterval flags)]) @ new" "list_all notNext new" by blast
  with True show ?thesis by (auto simp: followTask_def intro!: exI[of _ "Sleep (followInterval flags) # new"])
next
  case False
  with followDatasetAndPrint_notNext[of x "data_set r" tr] show ?thesis by (simp add: followTask_def)
qed

lemma followTask_taskRun: "followTask x flags r tr = (tr @ fst (taskRun x flags r tr), snd (taskRun x flags r tr))"
proof -
  from followTask_notNext[of x flags r tr] obtain new where "fst (followTask x flags r tr) = tr @ new"
    by blast
  then show ?thesis by (simp add: taskRun_def prod_eq_iff)
qed

lemma taskRun_notNext: "list_all notNext (fst (taskRun x flags r tr))"
proof -
  from followTask_notNext[of x flags r tr] obtain new where
    "fst (followTask x flags r tr) = tr @ new" "list_all notNext new" by blast
  then show ?thesis by (simp add: taskRun_def)
qed

lemma selectStep_returned:
  "selectStep sel n task tr = Inl (tr', out) \<Longrightarrow> \<exists>k. tr' = tr @ take k (fst task)"
  by (auto simp: selectStep_def split: selected.splits if_splits outcome.splits option.splits
           intro: exI[of _ "length (fst task)"])

lemma selectStep_continues:
  "selectStep sel n task tr = Inr (tr', r) \<Longrightarrow> tr' = tr @ fst task \<and> snd task = Ok r \<and> err r = None"
  by (auto simp: selectStep_def split: selected.splits if_splits outcome.splits option.splits)

lemma followLoop_notNext:
  "list_all notNext (fst task) \<Longrightarrow>
   \<exists>new. fst (followLoop x flags sel fuel n task tr) = tr @ new \<and> list_all notNext new"
proof (induction fuel arbitrary: n task tr)
  case 0
  show ?case
  proof (cases "selectStep sel n task tr")
    case (Inl returned)
    obtain tr' out where r: "returned = (tr', out)" by (cases returned)
    with Inl selectStep_returned[of sel n task tr tr' out] obtain k where "tr' = tr @ take k (fst task)"
      by auto
    moreover from "0.prems" have "list_all notNext (take k (fst task))"
      by (auto simp: list_all_iff dest: in_set_takeD)
    ultimately show ?thesis using Inl r by auto
  next
    case (Inr continued)
    obtain tr' r where c: "continued = (tr', r)" by (cases continued)
    with Inr selectStep_continues[of sel n task tr tr' r] have "tr' = tr @ fst task" by simp
    with Inr c "0.prems" show ?thesis by auto
  qed
next
  case (Suc fuel)
  show ?case
  proof (cases "selectStep sel n task tr")
    case (Inl returned)
    obtain tr' out where r: "returned = (tr', out)" by (cases returned)
    with Inl selectStep_returned[of sel n task tr tr' out] obtain k where "tr' = tr @ take k (fst task)"
      by auto
    moreover from Suc.prems have "list_all notNext (take k (fst task))"
      by (auto simp: list_all_iff dest: in_set_takeD)
    ultimately show ?thesis using Inl r by auto
  next
    case (Inr continued)
    obtain tr' r where c: "continued = (tr', r)" by (cases continued)
    with Inr selectStep_continues[of sel n task tr tr' r] have tr': "tr' = tr @ fst task" by simp
    from Suc.IH[where task = "taskRun x flags r tr'" and n = "Suc n" and tr = tr', OF taskRun_notNext]
    obtain new where
      "fst (followLoop x flags sel fuel (Suc n) (taskRun x flags r tr') tr') = tr' @ new"
      "list_all notNext new" by blast
    with Inr c tr' Suc.prems show ?thesis
      by (auto intro!: exI[of _ "fst task @ new"])
  qed
qed

lemma getOptimizationBlockerData_notNext:
  "\<exists>new. fst (getOptimizationBlockerData x tempVals tr) =
           tr @ Call (ExecuteQuery (OptimizationStartedTemplate tempVals)) # new \<and> list_all notNext new"
  by (auto simp: getOptimizationBlockerData_def startedErrors_def Let_def notNext_logErrors
           split: sum.splits option.splits list.splits val.splits outcome.splits)

lemma joinRow_notNext: "list_all notNext (fst (joinRow blockerRows row))"
  by (auto simp: joinRow_def Let_def split: outcome.splits option.splits)

lemma joinRow_row: "snd (joinRow blockerRows row) = Ok r \<Longrightarrow> eventsRowOf r = row"
  by (auto simp: joinRow_def Let_def eventsRowOf_def split: outcome.splits option.splits)

lemma joinRows_notNext:
  "\<exists>new. fst (joinRows blockerRows rows acc tr) = tr @ new \<and> list_all notNext new"
proof (induction rows arbitrary: acc tr)
  case Nil
  then show ?case by simp
next
  case (Cons row rows)
  obtain logs o' where j: "joinRow blockerRows row = (logs, o')" by (cases "joinRow blockerRows row")
  with joinRow_notNext[of blockerRows row] have l: "list_all notNext logs" by simp
  show ?case
  proof (cases o')
    case (Ok r)
    from Cons.IH[of "acc @ [r]" "tr @ logs"] obtain new where
      "fst (joinRows blockerRows rows (acc @ [r]) (tr @ logs)) = (tr @ logs) @ new" "list_all notNext new"
      by blast
    with j Ok l show ?thesis by (auto intro!: exI[of _ "logs @ new"])
  qed (use j l in auto)
qed

lemma joinRows_rows:
  "snd (joinRows blockerRows rows acc tr) = Ok rs \<Longrightarrow> map eventsRowOf rs = map eventsRowOf acc @ rows"
proof (induction rows arbitrary: acc tr)
  case Nil
  then show ?case by simp
next
  case (Cons row rows)
  obtain logs o' where j: "joinRow blockerRows row = (logs, o')" by (cases "joinRow blockerRows row")
  show ?case
  proof (cases o')
    case (Ok r)
    with j joinRow_row[of blockerRows row r] have "eventsRowOf r = row" by simp
    with Cons.IH[of "acc @ [r]" "tr @ logs" ] Cons.prems j Ok show ?thesis by simp
  qed (use j Cons.prems in auto)
qed


lemma listEvents_skip:
  assumes "count ef \<noteq> - 1 \<or> follow ef"
      and "compileFilter x fuel ef tr = (tr1, Ok (Some predicate))"
      and "compileLimits (count ef) = Ok limits"
      and "client x tr1 (ExecuteQuery (EventsTemplate (eventsTempVals ef predicate limits))) = Inr resp"
      and "Main resp = Some m" and "Data m = (VDataSet ds # cells) # others"
      and "extractEventsData (sliceToMap x) ds = Ok rows"
  shows "\<exists>rest. fst (listEvents x fuel sel ef tr) =
           tr1 @ [Call (ExecuteQuery (EventsTemplate (eventsTempVals ef predicate limits)))] @
           executionErrors EventsCmd resp @ PrintCmdOutput rows (length rows) # rest
         \<and> list_all notNext rest"
proof -
  let ?q = "EventsTemplate (eventsTempVals ef predicate limits)"
  let ?tr2 = "tr1 @ [Call (ExecuteQuery ?q)] @ executionErrors EventsCmd resp"
  let ?tr3 = "?tr2 @ [PrintCmdOutput rows (length rows)]"
  from assms(1) have skip: "(count ef \<noteq> - 1 \<or> follow ef) = True" by simp
  have f: "fetchPages x EventsCmd fuel ?q (count ef \<noteq> - 1 \<or> follow ef) tr1 = (?tr2, Ok (Some (rows, ds)))"
    unfolding skip by (rule fetchPages_first_page[OF assms(4-7)])
  show ?thesis
  proof (cases "follow ef \<and> ds \<noteq> None")
    case True
    from followLoop_notNext[where task = "([], Ok \<lparr>data_set = ds, err = None, cursorExhausted = False\<rparr>)"
        and x = x and flags = ef and sel = sel and fuel = fuel and n = 0 and tr = ?tr3]
    obtain new where "fst (followLoop x ef sel fuel 0 ([], Ok \<lparr>data_set = ds, err = None, cursorExhausted = False\<rparr>) ?tr3)
        = ?tr3 @ new" "list_all notNext new" by auto
    with True assms(2,3) f show ?thesis
      by (auto simp: listEvents_def Let_def)
  next
    case False
    with assms(2,3) f show ?thesis
      by (auto simp: listEvents_def Let_def)
  qed
qed

lemma listRecommendations_skip:
  assumes "count rf \<noteq> - 1"
      and "compileFilter x fuel rf tr = (tr1, Ok (Some predicate))"
      and "compileLimits (count rf) = Ok limits"
      and "client x tr1 (ExecuteQuery (RecommendationsTemplate (recTempVals rf predicate limits))) = Inr resp"
      and "Main resp = Some m" and "Data m = (VDataSet ds # cells) # others"
      and "extractEventsData (sliceToMap x) ds = Ok rows"
  shows "\<exists>rest. fst (listRecommendations x fuel rf tr) =
           tr1 @ [Call (ExecuteQuery (RecommendationsTemplate (recTempVals rf predicate limits)))] @
           executionErrors RecommendationsCmd resp @
           Call (ExecuteQuery (OptimizationStartedTemplate (recTempVals rf predicate limits))) # rest
         \<and> list_all notNext rest
         \<and> (snd (listRecommendations x fuel rf tr) = Ok () \<longrightarrow>
              (\<exists>rs. last rest = PrintCmdOutputRecommendations rs (length rows) \<and> map eventsRowOf rs = rows))"
proof -
  let ?tv = "recTempVals rf predicate limits"
  let ?tr2 = "tr1 @ [Call (ExecuteQuery (RecommendationsTemplate ?tv))] @ executionErrors RecommendationsCmd resp"
  from assms(1) have skip: "(count rf \<noteq> - 1) = True" by simp
  have f: "fetchPages x RecommendationsCmd fuel (RecommendationsTemplate ?tv) (count rf \<noteq> - 1) tr1
             = (?tr2, Ok (Some (rows, ds)))"
    unfolding skip by (rule fetchPages_first_page[OF assms(4-7)])
  obtain tr3 o3 where g: "getOptimizationBlockerData x ?tv ?tr2 = (tr3, o3)"
    by (cases "getOptimizationBlockerData x ?tv ?tr2")
  from getOptimizationBlockerData_notNext[of x ?tv ?tr2] g obtain new1 where
    tr3: "tr3 = ?tr2 @ Call (ExecuteQuery (OptimizationStartedTemplate ?tv)) # new1" "list_all notNext new1"
    by auto
  show ?thesis
  proof (cases o3)
    case (Ok blockerRows)
    obtain tr4 o4 where j: "joinRows blockerRows rows [] tr3 = (tr4, o4)"
      by (cases "joinRows blockerRows rows [] tr3")
    from joinRows_notNext[of blockerRows rows "[]" tr3] j obtain new2 where
      tr4: "tr4 = tr3 @ new2" "list_all notNext new2" by auto
    show ?thesis
    proof (cases o4)
      case (Ok rs)
      with j joinRows_rows[of blockerRows rows "[]" tr3 rs] have rs: "map eventsRowOf rs = rows" by simp
      then have "length rs = length rows" by (metis length_map)
      with assms(2,3) f g \<open>o3 = Ok blockerRows\<close> j Ok tr3 tr4 rs show ?thesis
        by (auto simp: listRecommendations_def Let_def
                 intro!: exI[of _ "new1 @ new2 @ [PrintCmdOutputRecommendations rs (length rs)]"])
    next
      case (Failed e)
      with assms(2,3) f g \<open>o3 = Ok blockerRows\<close> j tr3 tr4 show ?thesis
        by (auto simp: listRecommendations_def Let_def intro!: exI[of _ "new1 @ new2"])
    next
      case (Panic p)
      with assms(2,3) f g \<open>o3 = Ok blockerRows\<close> j tr3 tr4 show ?thesis
        by (auto simp: listRecommendations_def Let_def intro!: exI[of _ "new1 @ new2"])
    next
      case Unfinished
      with assms(2,3) f g \<open>o3 = Ok blockerRows\<close> j tr3 tr4 show ?thesis
        by (auto simp: listRecommendations_def Let_def intro!: exI[of _ "new1 @ new2"])
    qed
  next
    case (Failed e)
    with assms(2,3) f g tr3 show ?thesis
      by (auto simp: listRecommendations_def Let_def)
  next
    case (Panic p)
    with assms(2,3) f g tr3 show ?thesis
      by (auto simp: listRecommendations_def Let_def)
  next
    case Unfinished
    with assms(2,3) f g tr3 show ?thesis
      by (auto simp: listRecommendations_def Let_def)
  qed
qed


section \<open>Lemmas on the Entity Resolver and the Result Extractor\<close>

lemma optimizationPages_calls:
  "\<exists>cs. calls (fst (optimizationPages x fuel page m results tr)) = calls tr @ cs \<and> list_all resolverCall cs"
proof (induction fuel arbitrary: page m results tr)
  case 0
  then show ?case by simp
next
  case (Suc fuel)
  show ?case
  proof (cases "hasNext m")
    case False
    then show ?thesis by simp
  next
    case True
    show ?thesis
    proof (cases "client x tr (ContinueQuery (Some m) ''next'')")
      case (Inl e)
      with True show ?thesis by (simp add: calls_simps)
    next
      case (Inr resp)
      let ?tr1 = "tr @ [Call (ContinueQuery (Some m) ''next'')] @
                       logErrors ''Continuation of optimization query (page %v) encountered errors. Returned data may not be complete!''
                         [AInt (int page)] resp"
      have c1: "calls ?tr1 = calls tr @ [ContinueQuery (Some m) ''next'']"
        by (simp add: calls_simps)
      show ?thesis
      proof (cases "Main resp")
        case None
        with True Inr c1 show ?thesis by (simp add: calls_simps Let_def)
      next
        case (Some m')
        show ?thesis
        proof (cases "optimizationRows (Some page) (Data m') 0 results")
          case (Ok results')
          from Suc.IH[of "Suc page" m' results' ?tr1] obtain cs where
            "calls (fst (optimizationPages x fuel (Suc page) m' results' ?tr1)) = calls ?tr1 @ cs"
            "list_all resolverCall cs" by blast
          with True Inr Some Ok c1 show ?thesis
            by (auto simp: Let_def intro!: exI[of _ "ContinueQuery (Some m) ''next'' # cs"])
        qed (use True Inr Some c1 in \<open>auto simp: Let_def\<close>)
      qed
    qed
  qed
qed

lemma resolver_body_calls:
  assumes "resolverCall q"
  shows "\<exists>cs. calls (fst (case client x tr q of
                 Inl e0 \<Rightarrow> (tr @ [Call q], Failed (f e0))
               | Inr resp \<Rightarrow>
                  (case Main resp of
                        None \<Rightarrow> (tr @ [Call q] @ logErrors msg [] resp, Ok [])
                      | Some mainDataSet \<Rightarrow>
                         (case optimizationRows None (Data mainDataSet) 0 [] of
                            Ok results \<Rightarrow> optimizationPages x fuel 2 mainDataSet results (tr @ [Call q] @ logErrors msg [] resp)
                          | Failed e \<Rightarrow> (tr @ [Call q] @ logErrors msg [] resp, Failed e)
                          | Panic p \<Rightarrow> (tr @ [Call q] @ logErrors msg [] resp, Panic p)
                          | Unfinished \<Rightarrow> (tr @ [Call q] @ logErrors msg [] resp, Unfinished))))) = calls tr @ cs
             \<and> list_all resolverCall cs"
proof (cases "client x tr q")
  case (Inl e)
  with assms show ?thesis by (simp add: calls_simps)
next
  case (Inr resp)
  let ?tr1 = "tr @ [Call q] @ logErrors msg [] resp"
  have c1: "calls ?tr1 = calls tr @ [q]" by (simp add: calls_simps)
  show ?thesis
  proof (cases "Main resp")
    case None
    with assms Inr c1 show ?thesis by simp
  next
    case (Some m)
    show ?thesis
    proof (cases "optimizationRows None (Data m) 0 []")
      case (Ok results)
      from optimizationPages_calls[of x fuel 2 m results ?tr1] obtain cs where
        "calls (fst (optimizationPages x fuel 2 m results ?tr1)) = calls ?tr1 @ cs"
        "list_all resolverCall cs" by blast
      with assms Inr Some Ok c1 show ?thesis
        by (auto intro!: exI[of _ "q # cs"])
    qed (use assms Inr Some c1 in auto)
  qed
qed

lemma listOptimizations_calls:
  "\<exists>cs. calls (fst (listOptimizations x fuel flags tr)) = calls tr @ cs \<and> list_all resolverCall cs"
  unfolding listOptimizations_def Let_def
  by (split if_split, intro conjI impI, simp, rule resolver_body_calls, simp)

lemma cappedRun_calls:
  "\<exists>cs. calls (fst (cappedRun x fuel flags tr)) = calls tr @ cs \<and> list_all resolverCall cs"
proof (cases "optimizerId flags \<noteq> [] \<or> (namespace flags = [] \<and> workloadName flags = [])")
  case True
  then show ?thesis by (auto simp: cappedRun_def)
next
  case False
  obtain tr1 o1 where l: "listOptimizations x fuel flags tr = (tr1, o1)" by (cases "listOptimizations x fuel flags tr")
  with listOptimizations_calls[of x fuel flags tr] obtain cs where
    "calls tr1 = calls tr @ cs" "list_all resolverCall cs" by auto
  with False l show ?thesis
    by (cases o1) (auto simp: cappedRun_def calls_simps noEntities_def)
qed

lemma extractEventsRows_well_shaped:
  "list_all wellShaped rows \<Longrightarrow> extractEventsRows s2m rows acc = Ok (acc @ map (rowOf s2m) rows)"
proof (induction rows arbitrary: acc)
  case Nil
  then show ?case by simp
next
  case (Cons row rows)
  from Cons.prems obtain a t rest where row: "row = VComplex a # VTime t # rest"
    by (auto simp: wellShaped_def split: list.splits val.splits)
  with Cons show ?case by (simp add: rowOf_def)
qed

lemma extractEventsData_well_shaped:
  "list_all wellShaped rows \<Longrightarrow>
   extractEventsData s2m (Some (DataSet n rows l)) = Ok (map (rowOf s2m) rows)"
  by (simp add: extractEventsData_def extractEventsRows_well_shaped)

lemma extractEventsData_no_rows:
  "extractEventsData s2m None = Ok []" "extractEventsData s2m (Some (DataSet n [] l)) = Ok []"
  by (simp_all add: extractEventsData_def)

lemma extractEventsRows_malformed:
  "\<not> list_all wellShaped rows \<Longrightarrow> \<exists>p. extractEventsRows s2m rows acc = Panic p"
proof (induction rows arbitrary: acc)
  case Nil
  then show ?case by simp
next
  case (Cons row rows)
  show ?case
  proof (cases "wellShaped row")
    case True
    then obtain a t rest where row: "row = VComplex a # VTime t # rest"
      by (auto simp: wellShaped_def split: list.splits val.splits)
    from True Cons.prems have "\<not> list_all wellShaped rows" by simp
    from Cons.IH[OF this] row show ?thesis by simp
  next
    case False
    then show ?thesis
      by (auto simp: wellShaped_def split: list.splits val.splits)
  qed
qed

lemma uniqueKey_strings: "uniqueKey (VString a) (VString b) = Ok (a @ ''-'' @ b)"
  by (simp add: uniqueKey_def)

lemma uniqueKey_panics:
  "(\<forall>a. v \<noteq> VString a) \<or> (\<forall>b. w \<noteq> VString b) \<Longrightarrow> uniqueKey v w = Panic TypeAssertion"
  by (cases v; cases w) (auto simp: uniqueKey_def)


section \<open>Lemmas on the follow loop\<close>

lemma followDatasetAndPrint_starts:
  "\<exists>rest. fst (followDatasetAndPrint x ds tr) = tr @ Call (ContinueQuery ds ''follow'') # rest"
  by (auto simp: followDatasetAndPrint_def Let_def split: sum.splits option.splits list.splits val.splits outcome.splits)


lemma followDatasetAndPrint_nil_main:
  assumes "client x tr (ContinueQuery ds ''follow'') = Inr resp" and "Main resp = None"
  shows "followDatasetAndPrint x ds tr =
           (tr @ [Call (ContinueQuery ds ''follow'')] @ followErrors resp @ [followNilMain],
            Ok \<lparr>data_set = ds, err = None, cursorExhausted = False\<rparr>)"
  using assms by (simp add: followDatasetAndPrint_def Let_def)

lemma taskRun_starts:
  "\<exists>rest. fst (taskRun x flags r tr) =
           (if cursorExhausted r then [Sleep (followInterval flags)] else []) @
           Call (ContinueQuery (data_set r) ''follow'') # rest"
proof (cases "cursorExhausted r")
  case True
  from followDatasetAndPrint_starts[of x "data_set r" "tr @ [Sleep (followInterval flags)]"]
  obtain rest where "fst (followDatasetAndPrint x (data_set r) (tr @ [Sleep (followInterval flags)]))
      = (tr @ [Sleep (followInterval flags)]) @ Call (ContinueQuery (data_set r) ''follow'') # rest" by blast
  with True show ?thesis by (simp add: taskRun_def followTask_def)
next
  case False
  from followDatasetAndPrint_starts[of x "data_set r" tr]
  obtain rest where "fst (followDatasetAndPrint x (data_set r) tr)
      = tr @ Call (ContinueQuery (data_set r) ''follow'') # rest" by blast
  with False show ?thesis by (simp add: taskRun_def followTask_def)
qed


lemma taskRun_nil_main:
  assumes "tr0 = tr @ (if cursorExhausted r then [Sleep (followInterval flags)] else [])"
      and "client x tr0 (ContinueQuery (data_set r) ''follow'') = Inr resp"
      and "Main resp = None"
  shows "taskRun x flags r tr =
           ((if cursorExhausted r then [Sleep (followInterval flags)] else []) @
            [Call (ContinueQuery (data_set r) ''follow'')] @ followErrors resp @ [followNilMain],
            Ok \<lparr>data_set = data_set r, err = None, cursorExhausted = False\<rparr>)"
  using followDatasetAndPrint_nil_main[OF assms(2,3)] assms(1)
  by (auto simp: taskRun_def followTask_def)

lemma followLoop_result:
  assumes "sel n = Result"
  shows "\<exists>rest. fst (followLoop x flags sel fuel n task tr) = tr @ fst task @ rest"
proof -
  have task: "list_all notNext [] \<Longrightarrow> True" by simp
  show ?thesis
  proof (cases "selectStep sel n task tr")
    case (Inl returned)
    with assms have "fst returned = tr @ fst task"
      by (auto simp: selectStep_def split: outcome.splits option.splits)
    with Inl show ?thesis by (cases fuel) auto
  next
    case (Inr continued)
    obtain tr' r where c: "continued = (tr', r)" by (cases continued)
    with Inr selectStep_continues[of sel n task tr tr' r] have tr': "tr' = tr @ fst task" by simp
    show ?thesis
    proof (cases fuel)
      case 0
      with Inr c tr' show ?thesis by simp
    next
      case (Suc fuel')
      from followLoop_notNext[where task = "taskRun x flags r tr'" and x = x and flags = flags
          and sel = sel and fuel = fuel' and n = "Suc n" and tr = tr', OF taskRun_notNext]
      obtain new where
        "fst (followLoop x flags sel fuel' (Suc n) (taskRun x flags r tr') tr') = tr' @ new" by blast
      with Inr c tr' Suc show ?thesis by simp
    qed
  qed
qed

lemma followLoop_start:
  assumes "sel n = Result" and "err r = None"
  shows "followLoop x flags sel (Suc fuel) n (evs, Ok r) tr =
           followLoop x flags sel fuel (Suc n) (taskRun x flags r (tr @ evs)) (tr @ evs)"
  using assms by (simp add: selectStep_def)

lemma followDatasetAndPrint_calls:
  "calls (fst (followDatasetAndPrint x ds tr)) = calls tr @ [ContinueQuery ds ''follow'']"
  by (auto simp: followDatasetAndPrint_def followErrors_def followNilMain_def Let_def calls_simps
           split: sum.splits option.splits list.splits val.splits outcome.splits)

lemma taskRun_calls: "calls (fst (taskRun x flags r tr)) = [ContinueQuery (data_set r) ''follow'']"
proof -
  have "calls (fst (followTask x flags r tr)) = calls tr @ [ContinueQuery (data_set r) ''follow'']"
    by (simp add: followTask_def followDatasetAndPrint_calls calls_simps)
  then show ?thesis
    by (simp add: followTask_taskRun[of x flags r tr] calls_simps)
qed

lemma calls_take: "calls (take k evs) = [] \<or> calls (take k evs) = calls evs \<or> length (calls evs) > 1"
proof -
  have "calls evs = calls (take k evs) @ calls (drop k evs)"
    using calls_append[of "take k evs" "drop k evs"] by simp
  then show ?thesis
    by (cases "calls (take k evs)"; cases "calls (drop k evs)") auto
qed

section \<open>Unfolding the examples\<close>

lemmas ex_defs = exQuote_def exSliceToMap_def exExtern_def reply_def mainOf_def recClient_def exRecFlags_def
  exRowNoNum_def exPageNoNum_def exRecPage_def exStartedPage_def
  nilClient_def noSignal_def exCapFlags_def exCapRecFlags_def resolverClient_def exNamespaceQuery_def exRecQuery_def
lemmas run_defs = listRecommendations_def recTempVals_def compileFilter_def compileLimits_def fetchPages_def
  executionErrors_def startedErrors_def extractEventsData_def
  logErrors_def hasNext_def getOptimizationBlockerData_def extractStartedBlockersData_def ignoredBlockers_def
  lookup_def uniqueKey_def joinRow_def Itoa_def digit_def Let_def




lemmas events_defs = listEvents_def eventsTempVals_def compileFilter_def compileLimits_def fetchPages_def
  executionErrors_def followErrors_def followNilMain_def extractEventsData_def
  logErrors_def hasNext_def listOptimizations_def Itoa_def digit_def Let_def calls_def


lemmas follow_defs = exBatchPage_def exBatchRow_def exEmptyPage_def cursorClient_def exFollowFlags_def
  exEventsQuery_def exInitial_def followTask_def followDatasetAndPrint_def exRow_def
  selectStep_def taskRun_def signalAt_def


lemmas follow_defs2 = follow_defs exCursor_def exPolled_def exAfterBatch_def exExhausted_def exNoRows_def
  noMainClient_def

section \<open>The claims\<close>

text \<open>
  C1 (as amended). With a result cap above 1000 the main query is never sent: every call
  made is a call of the Entity Resolver. When the
  optimizer id is given, or neither a namespace nor a workload name is, the command fails
  with \<open>counts higher than 1000 are not supported\<close> and has done nothing before. Otherwise
  the lookup of the Entity Resolver runs first and nothing else does: the command fails with
  that error if the lookup gives at least one optimizer id, returns the error of the lookup
  if the lookup fails, and ends with the status line and without error if the lookup gives
  no id. This holds for \<open>listEvents\<close> and for \<open>listRecommendations\<close>.
\<close>

theorem cap_after_resolver:
  "(count ef > 1000 \<longrightarrow>
      listEvents x fuel sel ef tr = cappedRun x fuel ef tr
      \<and> (\<exists>cs. calls (fst (listEvents x fuel sel ef tr)) = calls tr @ cs \<and> list_all resolverCall cs))
   \<and> (count rf > 1000 \<longrightarrow>
      listRecommendations x fuel rf tr = cappedRun x fuel rf tr
      \<and> (\<exists>cs. calls (fst (listRecommendations x fuel rf tr)) = calls tr @ cs \<and> list_all resolverCall cs))"
proof (intro conjI impI)
  assume c: "count ef > 1000"
  then have l: "compileLimits (count ef) = Failed countsTooHigh"
    by (simp add: compileLimits_def)
  show e: "listEvents x fuel sel ef tr = cappedRun x fuel ef tr"
    unfolding listEvents_def cappedRun_def compileFilter_def l Let_def
    by (auto split: prod.splits outcome.splits)
  show "\<exists>cs. calls (fst (listEvents x fuel sel ef tr)) = calls tr @ cs \<and> list_all resolverCall cs"
    unfolding e by (rule cappedRun_calls)
next
  assume c: "count rf > 1000"
  then have l: "compileLimits (count rf) = Failed countsTooHigh"
    by (simp add: compileLimits_def)
  show r: "listRecommendations x fuel rf tr = cappedRun x fuel rf tr"
    unfolding listRecommendations_def cappedRun_def compileFilter_def l Let_def
    by (auto split: prod.splits outcome.splits)
  show "\<exists>cs. calls (fst (listRecommendations x fuel rf tr)) = calls tr @ cs \<and> list_all resolverCall cs"
    unfolding r by (rule cappedRun_calls)
qed

text \<open>Namespace \<open>payments\<close> and a cap of 2000, the lookup giving one id: the lookup is the
  one call made, and then the cap is refused. With an optimizer id and a cap of 1001
  nothing happens before the refusal.\<close>

theorem cap_after_resolver_witness:
  "count exCapFlags > 1000
   \<and> calls (fst (listEvents (exExtern (resolverClient [''payments-api-111''])) 0 noSignal exCapFlags []))
       = [ExecuteQuery exNamespaceQuery]
   \<and> snd (listEvents (exExtern (resolverClient [''payments-api-111''])) 0 noSignal exCapFlags [])
       = Failed countsTooHigh
   \<and> count (exRecFlags\<lparr>count := 1001\<rparr>) > 1000
   \<and> listRecommendations (exExtern (resolverClient [''payments-api-111''])) 0 (exRecFlags\<lparr>count := 1001\<rparr>) []
       = ([], Failed countsTooHigh)"
  using cap_after_resolver[where ef = exCapFlags and rf = "exRecFlags\<lparr>count := 1001\<rparr>"
          and x = "exExtern (resolverClient [''payments-api-111''])" and fuel = 0
          and sel = noSignal and tr = "[]"]
  by (simp add: ex_defs cappedRun_def listOptimizations_def logErrors_def hasNext_def calls_def Let_def)

text \<open>
  C1 as stated fails: with namespace \<open>payments\<close>, a cap of 2000 and a lookup that finds
  nothing, \<open>listEvents\<close> sends the lookup query and returns without error.
\<close>

theorem cap_before_any_query_counterexample:
  "calls (fst (listEvents (exExtern nilClient) 0 noSignal exCapFlags [])) = [ExecuteQuery exNamespaceQuery]
   \<and> snd (listEvents (exExtern nilClient) 0 noSignal exCapFlags []) = Ok ()"
  by (simp add: ex_defs events_defs noEntities_def)

text \<open>
  C2 (as amended). For a recommendation row whose key is in the lookup, all attributes of
  the lookup entry are copied into \<open>BlockersAttributes\<close>; every attribute name that
  does not contain \<open>principal\<close> and has more than three dot-delimited segments gives
  its second-to-last segment, which is appended to \<open>Blockers\<close> if it is not there yet
  (for identifiers that are not empty, hold no comma and are not part of one another);
  and \<open>BlockersPresent\<close> is \<open>true\<close> iff \<open>Blockers\<close> is not empty, else \<open>false\<close>.
\<close>

theorem blocker_join:
  assumes "uniqueKey (lookup (EventAttributes row) ''optimize.optimization.optimizer_id'')
             (lookup (EventAttributes row) ''optimize.optimization.num'') = Ok key"
      and "map_of blockerRows key = Some startedRow"
      and "distinct (map fst startedRow)"
      and "wellSeparated (candidateIds (map fst startedRow))"
  shows "joinRow blockerRows row =
           ([], Ok \<lparr>Timestamp = Timestamp row, EventAttributes = EventAttributes row,
                    BlockersAttributes = startedRow,
                    BlockersPresent =
                      (if specBlockers (candidateIds (map fst startedRow)) = [] then ''false'' else ''true''),
                    Blockers = specBlockers (candidateIds (map fst startedRow))\<rparr>)"
  using assms(1,2) mergeBlockers_amended[OF assms(3,4)]
  by (simp add: joinRow_def Let_def)


text \<open>The example of the specification: the \<open>principal\<close> attribute of \<open>cpu-limit\<close> is
  copied and gives no identifier, its \<open>reason\<close> attribute gives \<open>cpu-limit\<close>, once.\<close>

theorem blocker_join_witness:
  "uniqueKey (lookup (EventAttributes exRow) ''optimize.optimization.optimizer_id'')
     (lookup (EventAttributes exRow) ''optimize.optimization.num'') = Ok ''ns-wl-abc-3''
   \<and> map_of [(''ns-wl-abc-3'', exStarted)] ''ns-wl-abc-3'' = Some exStarted
   \<and> distinct (map fst exStarted)
   \<and> wellSeparated (candidateIds (map fst exStarted))
   \<and> joinRow [(''ns-wl-abc-3'', exStarted)] exRow =
       ([], Ok \<lparr>Timestamp = 1700000000, EventAttributes = EventAttributes exRow,
                BlockersAttributes = exStarted, BlockersPresent = ''true'',
                Blockers = [''cpu-limit'', ''mem-limit'']\<rparr>)"
proof -
  have k: "uniqueKey (lookup (EventAttributes exRow) ''optimize.optimization.optimizer_id'')
     (lookup (EventAttributes exRow) ''optimize.optimization.num'') = Ok ''ns-wl-abc-3''"
    by (simp add: exRow_def lookup_def uniqueKey_def)
  have m: "map_of [(''ns-wl-abc-3'', exStarted)] ''ns-wl-abc-3'' = Some exStarted"
    by simp
  have d: "distinct (map fst exStarted)"
    by (simp add: exStarted_def)
  have c: "candidateIds (map fst exStarted) = [''cpu-limit'', ''mem-limit'', ''cpu-limit'']"
    by (simp add: exStarted_def candidateIds_def secondToLast_def)
  have w: "wellSeparated (candidateIds (map fst exStarted))"
    unfolding c by (simp add: wellSeparated_def)
  have s: "specBlockers (candidateIds (map fst exStarted)) = [''cpu-limit'', ''mem-limit'']"
    unfolding c by (simp add: specBlockers_def addOnce_def)
  from blocker_join[OF k m d w] k m d w show ?thesis
    unfolding s by (simp add: exRow_def)
qed


text \<open>
  C2 as stated fails: the name \<open>optimize.ignored_blockers.enabled\<close> has no
  \<open>principal\<close> and its second-to-last segment is \<open>ignored_blockers\<close>, which line 610
  leaves out; and \<open>cpu\<close> is left out after \<open>cpu-limit\<close>, since line 612 tests whether it
  is a part of the joined identifiers.
\<close>

theorem blocker_join_counterexample:
  "mapOk Blockers (snd (joinRow [(''ns-wl-abc-3'', exShortNames)] exRow)) = Ok [''cpu-limit'']
   \<and> specBlockers (claimedIds (map fst exShortNames)) = [''ignored_blockers'', ''cpu-limit'', ''cpu'']"
  by (simp add: joinRow_def exRow_def lookup_def uniqueKey_def exShortNames_def mergeBlockers_def
        blockerStep_def specBlockers_def claimedIds_def secondToLast_def addOnce_def)

text \<open>
  C3, where the code departs from it. The key is derived as claimed
  (\<open>uniqueKey_strings\<close>), and the key of the example is \<open>ns-wl-abc-3\<close>; a
  recommendation row without \<open>optimize.optimization.num\<close> makes the loop of line 589
  panic on the unchecked type assertion of line 592, here in a run of
  \<open>listRecommendations\<close> whose two queries succeed.
\<close>

theorem missing_num_panics:
  "uniqueKey (VString ''ns-wl-abc'') (VString ''3'') = Ok ''ns-wl-abc-3''
   \<and> joinRow [(''ns-wl-abc-3'', exStarted)] exRowNoNum = ([], Panic TypeAssertion)
   \<and> snd (listRecommendations (exExtern (recClient exPageNoNum (Some (mainOf exStartedPage)))) 0 exRecFlags [])
       = Panic TypeAssertion"
  by (simp add: ex_defs run_defs)

text \<open>
  C4, where the code departs from it. A row whose first cell is not an attribute bag, or
  whose second cell is not a timestamp, or which has fewer than two cells, makes
  \<open>extractEventsData\<close> panic: the index expressions and type assertions of lines 710 and
  712 are unchecked and the error result of the function is always nil. (The rest of C4
  holds: \<open>extractEventsData_well_shaped\<close> and \<open>extractEventsData_no_rows\<close>.)
\<close>

theorem extractEventsData_panics:
  "extractEventsData exSliceToMap (Some (DataSet ''events'' [[VString ''x'', VTime 0]] [])) = Panic TypeAssertion
   \<and> extractEventsData exSliceToMap (Some (DataSet ''events'' [[VComplex [], VString ''now'']] [])) = Panic TypeAssertion
   \<and> extractEventsData exSliceToMap (Some (DataSet ''events'' [[VComplex []]] [])) = Panic IndexOutOfRange
   \<and> extractEventsData exSliceToMap (Some (DataSet ''events'' [[]] [])) = Panic IndexOutOfRange"
  by (simp add: extractEventsData_def)

text \<open>
  C5 (as amended). In the follow loop, a poll whose response has no main data set is not
  fatal: the error is logged and the next poll is sent at once, on the same page handle.
  A poll whose main data set has no rows, whose first row has no columns, or whose first
  cell is not a data set handle is fatal: the loop returns that error and polls no more.
  (The \<open>select\<close> number \<open>n\<close> receives a result \<open>r\<close> without error and starts the task
  of the poll; the \<open>select\<close>s after it receive results.)
\<close>

theorem poll_failures:
  assumes "sel n = Result" and "err r = None"
      and "tr0 = tr @ evs @ (if cursorExhausted r then [Sleep (followInterval flags)] else [])"
      and "client x tr0 (ContinueQuery (data_set r) ''follow'') = Inr resp"
      and "sel (Suc n) = Result" and "sel (Suc (Suc n)) = Result"
  shows "(Main resp = None \<longrightarrow>
            (\<exists>rest. fst (followLoop x flags sel (Suc (Suc fuel)) n (evs, Ok r) tr) =
               tr0 @ [Call (ContinueQuery (data_set r) ''follow'')] @ followErrors resp @
               followNilMain # Call (ContinueQuery (data_set r) ''follow'') # rest))
       \<and> (\<forall>m. Main resp = Some m \<and> Data m = [] \<longrightarrow>
            followLoop x flags sel (Suc (Suc fuel)) n (evs, Ok r) tr =
              (tr0 @ [Call (ContinueQuery (data_set r) ''follow'')] @ followErrors resp,
               Failed (Errorf ''follow main dataset %v has no rows'' [AString (Name m)])))
       \<and> (\<forall>m rows. Main resp = Some m \<and> Data m = [] # rows \<longrightarrow>
            followLoop x flags sel (Suc (Suc fuel)) n (evs, Ok r) tr =
              (tr0 @ [Call (ContinueQuery (data_set r) ''follow'')] @ followErrors resp,
               Failed (Errorf ''follow main dataset %v first row has no columns'' [AString (Name m)])))
       \<and> (\<forall>m c cells rows. Main resp = Some m \<and> Data m = (c # cells) # rows \<and> (\<forall>d. c \<noteq> VDataSet d) \<longrightarrow>
            followLoop x flags sel (Suc (Suc fuel)) n (evs, Ok r) tr =
              (tr0 @ [Call (ContinueQuery (data_set r) ''follow'')] @ followErrors resp,
               Failed (Errorf ''follow main dataset %v first row first column (type %T) could not be converted to *uql.DataSet''
                         [AString (Name m), ATypeOf c])))"
proof (intro conjI impI allI)
  assume nil: "Main resp = None"
  let ?r' = "\<lparr>data_set = data_set r, err = None, cursorExhausted = False\<rparr>"
  let ?evs1 = "(if cursorExhausted r then [Sleep (followInterval flags)] else []) @
            [Call (ContinueQuery (data_set r) ''follow'')] @ followErrors resp @ [followNilMain]"
  let ?tr1 = "(tr @ evs) @ ?evs1"
  from assms(3) have tr0: "tr0 = (tr @ evs) @ (if cursorExhausted r then [Sleep (followInterval flags)] else [])"
    by simp
  have task: "taskRun x flags r (tr @ evs) = (?evs1, Ok ?r')"
    by (rule taskRun_nil_main[OF tr0 assms(4) nil])
  have step0: "followLoop x flags sel (Suc (Suc fuel)) n (evs, Ok r) tr =
      followLoop x flags sel (Suc fuel) (Suc n) (taskRun x flags r (tr @ evs)) (tr @ evs)"
    using assms(1,2) by (simp add: selectStep_def)
  have step1: "followLoop x flags sel (Suc (Suc fuel)) n (evs, Ok r) tr =
      followLoop x flags sel (Suc fuel) (Suc n) (?evs1, Ok ?r') (tr @ evs)"
    unfolding step0 task by (rule refl)
  have step2: "followLoop x flags sel (Suc fuel) (Suc n) (?evs1, Ok ?r') (tr @ evs) =
      followLoop x flags sel fuel (Suc (Suc n)) (taskRun x flags ?r' ?tr1) ?tr1"
    using assms(5) by (simp add: selectStep_def)
  from assms(6) followLoop_result[where sel = sel and n = "Suc (Suc n)" and x = x and flags = flags
      and fuel = fuel and task = "taskRun x flags ?r' ?tr1" and tr = ?tr1]
  obtain rest1 where r1: "fst (followLoop x flags sel fuel (Suc (Suc n)) (taskRun x flags ?r' ?tr1) ?tr1) =
      ?tr1 @ fst (taskRun x flags ?r' ?tr1) @ rest1" by blast
  from taskRun_starts[of x flags ?r' ?tr1] obtain rest2 where r2: "fst (taskRun x flags ?r' ?tr1) =
      Call (ContinueQuery (data_set r) ''follow'') # rest2" by auto
  show "\<exists>rest. fst (followLoop x flags sel (Suc (Suc fuel)) n (evs, Ok r) tr) =
               tr0 @ [Call (ContinueQuery (data_set r) ''follow'')] @ followErrors resp @
               followNilMain # Call (ContinueQuery (data_set r) ''follow'') # rest"
    unfolding step1 step2 r1 r2 using assms(3) by auto
next
  fix m assume a: "Main resp = Some m \<and> Data m = []"
  let ?e = "Errorf ''follow main dataset %v has no rows'' [AString (Name m)]"
  from assms(3,4) a have "followTask x flags r (tr @ evs) =
      (tr0 @ [Call (ContinueQuery (data_set r) ''follow'')] @ followErrors resp,
       Ok \<lparr>data_set = None, err = Some ?e, cursorExhausted = False\<rparr>)"
    by (cases "cursorExhausted r") (simp_all add: followTask_def followDatasetAndPrint_def Let_def)
  then have "taskRun x flags r (tr @ evs) =
      (drop (length (tr @ evs)) (tr0 @ [Call (ContinueQuery (data_set r) ''follow'')] @ followErrors resp),
       Ok \<lparr>data_set = None, err = Some ?e, cursorExhausted = False\<rparr>)"
    by (simp add: taskRun_def)
  with assms(1,2,3,5) show "followLoop x flags sel (Suc (Suc fuel)) n (evs, Ok r) tr =
              (tr0 @ [Call (ContinueQuery (data_set r) ''follow'')] @ followErrors resp, Failed ?e)"
    by (simp add: selectStep_def)
next
  fix m rows assume a: "Main resp = Some m \<and> Data m = [] # rows"
  let ?e = "Errorf ''follow main dataset %v first row has no columns'' [AString (Name m)]"
  from assms(3,4) a have "followTask x flags r (tr @ evs) =
      (tr0 @ [Call (ContinueQuery (data_set r) ''follow'')] @ followErrors resp,
       Ok \<lparr>data_set = None, err = Some ?e, cursorExhausted = False\<rparr>)"
    by (cases "cursorExhausted r") (simp_all add: followTask_def followDatasetAndPrint_def Let_def)
  then have "taskRun x flags r (tr @ evs) =
      (drop (length (tr @ evs)) (tr0 @ [Call (ContinueQuery (data_set r) ''follow'')] @ followErrors resp),
       Ok \<lparr>data_set = None, err = Some ?e, cursorExhausted = False\<rparr>)"
    by (simp add: taskRun_def)
  with assms(1,2,3,5) show "followLoop x flags sel (Suc (Suc fuel)) n (evs, Ok r) tr =
              (tr0 @ [Call (ContinueQuery (data_set r) ''follow'')] @ followErrors resp, Failed ?e)"
    by (simp add: selectStep_def)
next
  fix m c cells rows assume a: "Main resp = Some m \<and> Data m = (c # cells) # rows \<and> (\<forall>d. c \<noteq> VDataSet d)"
  let ?e = "Errorf ''follow main dataset %v first row first column (type %T) could not be converted to *uql.DataSet''
                         [AString (Name m), ATypeOf c]"
  from assms(3,4) a have "followTask x flags r (tr @ evs) =
      (tr0 @ [Call (ContinueQuery (data_set r) ''follow'')] @ followErrors resp,
       Ok \<lparr>data_set = None, err = Some ?e, cursorExhausted = False\<rparr>)"
    by (cases "cursorExhausted r"; cases c) (simp_all add: followTask_def followDatasetAndPrint_def Let_def)
  then have "taskRun x flags r (tr @ evs) =
      (drop (length (tr @ evs)) (tr0 @ [Call (ContinueQuery (data_set r) ''follow'')] @ followErrors resp),
       Ok \<lparr>data_set = None, err = Some ?e, cursorExhausted = False\<rparr>)"
    by (simp add: taskRun_def)
  with assms(1,2,3,5) show "followLoop x flags sel (Suc (Suc fuel)) n (evs, Ok r) tr =
              (tr0 @ [Call (ContinueQuery (data_set r) ''follow'')] @ followErrors resp, Failed ?e)"
    by (simp add: selectStep_def)
qed

text \<open>After an empty page the task sleeps and polls; the reply has no main data set, and the
  next poll follows the log line. With a reply whose main data set has no rows the loop
  returns the error.\<close>

theorem poll_failures_witness:
  "(\<exists>rest. fst (followLoop exCursor exFollowFlags noSignal (Suc (Suc 0)) 0 ([], Ok exExhausted) []) =
       [Sleep 60000000000,
        Call (ContinueQuery (Some exEmptyPage) ''follow''),
        followNilMain,
        Call (ContinueQuery (Some exEmptyPage) ''follow'')] @ rest)
   \<and> followLoop (exExtern (cursorClient exNoRows)) exFollowFlags noSignal (Suc (Suc 0)) 0 ([], Ok exExhausted) [] =
       ([Sleep 60000000000, Call (ContinueQuery (Some exEmptyPage) ''follow'')],
        Failed (Errorf ''follow main dataset %v has no rows'' [AString ''main'']))"
proof -
  have i: "noSignal 0 = Result" "noSignal (Suc 0) = Result" "noSignal (Suc (Suc 0)) = Result"
    by (simp_all add: noSignal_def)
  have e: "err exExhausted = None"
    by (simp add: exExhausted_def)
  have t: "[Sleep 60000000000] = [] @ [] @ (if cursorExhausted exExhausted then [Sleep (followInterval exFollowFlags)] else [])"
    by (simp add: exExhausted_def exFollowFlags_def)
  have c1: "client exCursor [Sleep 60000000000] (ContinueQuery (data_set exExhausted) ''follow'')
              = Inr \<lparr>HasErrors = False, Errors = [], Main = None\<rparr>"
    by (simp add: ex_defs follow_defs2)
  have c2: "client (exExtern (cursorClient exNoRows)) [Sleep 60000000000] (ContinueQuery (data_set exExhausted) ''follow'')
              = Inr \<lparr>HasErrors = False, Errors = [], Main = Some (DataSet ''main'' [] [])\<rparr>"
    by (simp add: ex_defs follow_defs2)
  note a = poll_failures[where sel = noSignal and n = 0 and fuel = 0, OF i(1) e t c1 i(2) i(3)]
  note b = poll_failures[where sel = noSignal and n = 0 and fuel = 0, OF i(1) e t c2 i(2) i(3)]
  from a b show ?thesis
    by (simp add: followErrors_def logErrors_def exExhausted_def)
qed

text \<open>
  C5 as stated fails: in a run of \<open>listEvents\<close> in follow mode where the third poll and
  all later ones have no main data set, the loop goes on polling and has returned no error
  after five polls.
\<close>

theorem nil_main_is_fatal_counterexample:
  "calls (fst (listEvents (exExtern (cursorClient (reply None))) 5 noSignal exFollowFlags []))
     = [ExecuteQuery (exEventsQuery []),
        ContinueQuery (Some exRecPage) ''follow'',
        ContinueQuery (Some exBatchPage) ''follow'',
        ContinueQuery (Some exEmptyPage) ''follow'',
        ContinueQuery (Some exEmptyPage) ''follow'',
        ContinueQuery (Some exEmptyPage) ''follow'']
   \<and> snd (listEvents (exExtern (cursorClient (reply None))) 5 noSignal exFollowFlags []) = Unfinished"
  by (simp add: ex_defs events_defs follow_defs eval_nat_numeral)

text \<open>
  C6. With \<open>skipPagination\<close> the fetch makes one call, the main query, whatever the
  reply. When a result cap is given (\<open>count\<close> is not -1), or in \<open>listEvents\<close> when
  follow mode is on, and the first page is well formed with rows \<open>rows\<close> (whether or not
  it has a \<open>next\<close> link): \<open>listEvents\<close> prints exactly \<open>rows\<close> right after the main
  query and requests no \<open>next\<close> page afterwards; \<open>listRecommendations\<close> sends the
  optimization-started query right after the main query, requests no \<open>next\<close> page
  afterwards, and when it succeeds it prints the rows of the first page, joined.
\<close>

theorem pagination_skipped:
  "calls (fst (fetchPages x cmd fuel query True tr0)) = calls tr0 @ [ExecuteQuery query]
   \<and> ((count ef \<noteq> - 1 \<or> follow ef)
        \<and> compileFilter x fuel ef tr = (tr1, Ok (Some predicate))
        \<and> compileLimits (count ef) = Ok limits
        \<and> client x tr1 (ExecuteQuery (EventsTemplate (eventsTempVals ef predicate limits))) = Inr resp
        \<and> Main resp = Some m \<and> Data m = (VDataSet ds # cells) # others
        \<and> extractEventsData (sliceToMap x) ds = Ok rows
      \<longrightarrow> (\<exists>rest. fst (listEvents x fuel sel ef tr) =
                  tr1 @ [Call (ExecuteQuery (EventsTemplate (eventsTempVals ef predicate limits)))] @
                  executionErrors EventsCmd resp @ PrintCmdOutput rows (length rows) # rest
                \<and> list_all notNext rest))
   \<and> (count rf \<noteq> - 1
        \<and> compileFilter x fuel rf tr = (tr2, Ok (Some predicate'))
        \<and> compileLimits (count rf) = Ok limits'
        \<and> client x tr2 (ExecuteQuery (RecommendationsTemplate (recTempVals rf predicate' limits'))) = Inr resp'
        \<and> Main resp' = Some m' \<and> Data m' = (VDataSet ds' # cells') # others'
        \<and> extractEventsData (sliceToMap x) ds' = Ok rows'
      \<longrightarrow> (\<exists>rest. fst (listRecommendations x fuel rf tr) =
                  tr2 @ [Call (ExecuteQuery (RecommendationsTemplate (recTempVals rf predicate' limits')))] @
                  executionErrors RecommendationsCmd resp' @
                  Call (ExecuteQuery (OptimizationStartedTemplate (recTempVals rf predicate' limits'))) # rest
                \<and> list_all notNext rest
                \<and> (snd (listRecommendations x fuel rf tr) = Ok () \<longrightarrow>
                     (\<exists>rs. last rest = PrintCmdOutputRecommendations rs (length rows')
                           \<and> map eventsRowOf rs = rows'))))"
proof (intro conjI impI)
  show "calls (fst (fetchPages x cmd fuel query True tr0)) = calls tr0 @ [ExecuteQuery query]"
    by (rule fetchPages_skip_calls)
next
  assume "(count ef \<noteq> - 1 \<or> follow ef)
        \<and> compileFilter x fuel ef tr = (tr1, Ok (Some predicate))
        \<and> compileLimits (count ef) = Ok limits
        \<and> client x tr1 (ExecuteQuery (EventsTemplate (eventsTempVals ef predicate limits))) = Inr resp
        \<and> Main resp = Some m \<and> Data m = (VDataSet ds # cells) # others
        \<and> extractEventsData (sliceToMap x) ds = Ok rows"
  then show "\<exists>rest. fst (listEvents x fuel sel ef tr) =
                  tr1 @ [Call (ExecuteQuery (EventsTemplate (eventsTempVals ef predicate limits)))] @
                  executionErrors EventsCmd resp @ PrintCmdOutput rows (length rows) # rest
                \<and> list_all notNext rest"
    using listEvents_skip[of ef x fuel tr tr1 predicate limits resp m ds cells others rows sel]
    by blast
next
  assume "count rf \<noteq> - 1
        \<and> compileFilter x fuel rf tr = (tr2, Ok (Some predicate'))
        \<and> compileLimits (count rf) = Ok limits'
        \<and> client x tr2 (ExecuteQuery (RecommendationsTemplate (recTempVals rf predicate' limits'))) = Inr resp'
        \<and> Main resp' = Some m' \<and> Data m' = (VDataSet ds' # cells') # others'
        \<and> extractEventsData (sliceToMap x) ds' = Ok rows'"
  then show "\<exists>rest. fst (listRecommendations x fuel rf tr) =
                  tr2 @ [Call (ExecuteQuery (RecommendationsTemplate (recTempVals rf predicate' limits')))] @
                  executionErrors RecommendationsCmd resp' @
                  Call (ExecuteQuery (OptimizationStartedTemplate (recTempVals rf predicate' limits'))) # rest
                \<and> list_all notNext rest
                \<and> (snd (listRecommendations x fuel rf tr) = Ok () \<longrightarrow>
                     (\<exists>rs. last rest = PrintCmdOutputRecommendations rs (length rows')
                           \<and> map eventsRowOf rs = rows'))"
    using listRecommendations_skip[of rf x fuel tr tr2 predicate' limits' resp' m' ds' cells' others' rows']
    by blast
qed

text \<open>A first page that has a \<open>next\<close> link, with a cap of 5 for the events and of 1 for
  the recommendations.\<close>

theorem pagination_skipped_witness:
  "hasNext exRecPage
   \<and> extractEventsData exSliceToMap (Some exRecPage) = Ok [exRow]
   \<and> listEvents exCursor 0 noSignal exCountFlags [] =
       ([Call (ExecuteQuery (exEventsQuery ''5'')), PrintCmdOutput [exRow] 1], Ok ())
   \<and> listRecommendations exCursor 0 exRecFlags [] =
       ([Call (ExecuteQuery (RecommendationsTemplate exRecQuery)),
         Call (ExecuteQuery (OptimizationStartedTemplate exRecQuery)),
         PrintCmdOutputRecommendations [exJoined] 1], Ok ())"
proof -
  let ?p = "''attributes(optimize.optimization.optimizer_id) = '' @ exQuote ''ns-wl-abc''"
  let ?resp = "\<lparr>HasErrors = False, Errors = [], Main = Some (mainOf exRecPage)\<rparr>"
  have n: "hasNext exRecPage"
    by (simp add: hasNext_def exRecPage_def)
  have q: "EventsTemplate (eventsTempVals exCountFlags ?p ''5'') = exEventsQuery ''5''"
    by (simp add: eventsTempVals_def exCountFlags_def follow_defs2 ex_defs)
  have t: "recTempVals exRecFlags ?p ''1'' = exRecQuery"
    by (simp add: recTempVals_def ex_defs)
  have h1: "count exCountFlags \<noteq> - 1 \<or> follow exCountFlags" "count exRecFlags \<noteq> - 1"
    by (simp_all add: exCountFlags_def exRecFlags_def)
  have h2: "compileFilter exCursor 0 exCountFlags [] = ([], Ok (Some ?p))"
           "compileFilter exCursor 0 exRecFlags [] = ([], Ok (Some ?p))"
    by (simp_all add: compileFilter_def exCountFlags_def follow_defs2 ex_defs)
  have h3: "compileLimits (count exCountFlags) = Ok ''5''" "compileLimits (count exRecFlags) = Ok ''1''"
    by (simp_all add: compileLimits_def exCountFlags_def exRecFlags_def Itoa_def digit_def)
  have h4: "client exCursor [] (ExecuteQuery (EventsTemplate (eventsTempVals exCountFlags ?p ''5''))) = Inr ?resp"
           "client exCursor [] (ExecuteQuery (RecommendationsTemplate (recTempVals exRecFlags ?p ''1''))) = Inr ?resp"
    by (simp_all add: exCursor_def cursorClient_def exExtern_def reply_def)
  have h5: "Main ?resp = Some (mainOf exRecPage)" "Data (mainOf exRecPage) = (VDataSet (Some exRecPage) # []) # []"
    by (simp_all add: mainOf_def)
  have h6: "extractEventsData (sliceToMap exCursor) (Some exRecPage) = Ok [exRow]"
    by (simp add: ex_defs follow_defs2 extractEventsData_def)
  have e: "listEvents exCursor 0 noSignal exCountFlags [] =
       ([Call (ExecuteQuery (exEventsQuery ''5'')), PrintCmdOutput [exRow] 1], Ok ())"
    by (simp add: ex_defs events_defs follow_defs2 exCountFlags_def)
  have r: "listRecommendations exCursor 0 exRecFlags [] =
       ([Call (ExecuteQuery (RecommendationsTemplate exRecQuery)),
         Call (ExecuteQuery (OptimizationStartedTemplate exRecQuery)),
         PrintCmdOutputRecommendations [exJoined] 1], Ok ())"
    by (simp add: ex_defs run_defs follow_defs2 exJoined_def mergeBlockers_def blockerStep_def)
  note w = pagination_skipped[where x = exCursor and fuel = 0 and ef = exCountFlags and rf = exRecFlags
      and tr = "[]" and ?tr1.0 = "[]" and ?tr2.0 = "[]" and predicate = ?p and predicate' = ?p
      and limits = "''5''" and limits' = "''1''" and resp = ?resp and resp' = ?resp
      and m = "mainOf exRecPage" and m' = "mainOf exRecPage" and ds = "Some exRecPage" and ds' = "Some exRecPage"
      and cells = "[]" and cells' = "[]" and others = "[]" and others' = "[]"
      and rows = "[exRow]" and rows' = "[exRow]" and sel = noSignal
      and cmd = EventsCmd and query = "exEventsQuery ''5''" and ?tr0.0 = "[]"]
  from w h1 h2 h3 h4 h5 h6 have
    "\<exists>rest. fst (listEvents exCursor 0 noSignal exCountFlags []) =
        [] @ [Call (ExecuteQuery (EventsTemplate (eventsTempVals exCountFlags ?p ''5'')))] @
        executionErrors EventsCmd ?resp @ PrintCmdOutput [exRow] (length [exRow]) # rest
      \<and> list_all notNext rest"
    by blast
  with n h6 e r show ?thesis
    by (simp add: exCursor_def exExtern_def)
qed




text \<open>
  C8. In every state of the follow loop, with or without a task in flight and whatever the
  task has done, the \<open>select\<close> that receives the signal makes the command return without
  error. The trace ends with the events the task in flight had made by then: no task is
  started, so no poll is sent but, at most, the one of the task in flight. (A task that
  has panicked before the signal is received has ended the process.)
\<close>

theorem cancellation:
  assumes "sel n = Signal k" and "k < length evs \<or> (\<forall>p. out \<noteq> Panic p)"
  shows "followLoop x flags sel fuel n (evs, out) tr = (tr @ take k evs, Ok ())
         \<and> ((evs, out) = taskRun x flags r tr \<longrightarrow>
              calls (take k evs) = [] \<or> calls (take k evs) = [ContinueQuery (data_set r) ''follow''])"
proof (intro conjI impI)
  from assms have "selectStep sel n (evs, out) tr = Inl (tr @ take k evs, Ok ())"
    by (cases out) (auto simp: selectStep_def)
  then show "followLoop x flags sel fuel n (evs, out) tr = (tr @ take k evs, Ok ())"
    by (cases fuel) simp_all
next
  assume "(evs, out) = taskRun x flags r tr"
  then have "evs = fst (taskRun x flags r tr)" by (metis fst_conv)
  with taskRun_calls[of x flags r tr] have "calls evs = [ContinueQuery (data_set r) ''follow'']"
    by simp
  with calls_take[of k evs]
  show "calls (take k evs) = [] \<or> calls (take k evs) = [ContinueQuery (data_set r) ''follow'']"
    by auto
qed

text \<open>The signal is received by the second \<open>select\<close> when the task in flight has sent its
  poll and has not printed yet: the command returns without error after that poll. In a
  run of \<open>listEvents\<close> where the third \<open>select\<close> receives the signal before the task in
  flight has done anything, the command returns without error after the first poll.\<close>

theorem cancellation_witness:
  "taskRun exCursor exFollowFlags exInitial [] = (exPolled, Ok exAfterBatch)
   \<and> followLoop exCursor exFollowFlags (signalAt 1 1) 3 1 (exPolled, Ok exAfterBatch) []
       = ([Call (ContinueQuery (Some exRecPage) ''follow'')], Ok ())
   \<and> listEvents exCursor 3 (signalAt 2 0) exFollowFlags []
       = ([Call (ExecuteQuery (exEventsQuery [])), PrintCmdOutput [exRow] 1,
           Call (ContinueQuery (Some exRecPage) ''follow''), PrintCmdOutputCustom [exBatchRow] 1], Ok ())"
proof -
  have t: "taskRun exCursor exFollowFlags exInitial [] = (exPolled, Ok exAfterBatch)"
    by (simp add: ex_defs follow_defs2 extractEventsData_def followErrors_def logErrors_def)
  have s: "signalAt 1 1 1 = Signal 1"
    by (simp add: signalAt_def)
  have k: "1 < length exPolled \<or> (\<forall>p. Ok exAfterBatch \<noteq> Panic p)"
    by simp
  note c = cancellation[where sel = "signalAt 1 1" and n = 1 and k = 1 and evs = exPolled
      and out = "Ok exAfterBatch" and x = exCursor and flags = exFollowFlags and fuel = 3
      and tr = "[]" and r = exInitial, OF s k]
  have l: "listEvents exCursor 3 (signalAt 2 0) exFollowFlags []
       = ([Call (ExecuteQuery (exEventsQuery [])), PrintCmdOutput [exRow] 1,
           Call (ContinueQuery (Some exRecPage) ''follow''), PrintCmdOutputCustom [exBatchRow] 1], Ok ())"
    by (simp add: ex_defs events_defs follow_defs2 eval_nat_numeral)
  from c t l show ?thesis
    by (simp add: exPolled_def)
qed

text \<open>
  C9. When the optimizer id is absent, a namespace or a workload name is given and
  \<open>listOptimizations\<close> returns no optimizer id, \<open>listEvents\<close> and \<open>listRecommendations\<close>
  print the status \<open>No optimization entities found matching the given criteria\<close> and
  return without error; after what the lookup did, the status line is all they do, so no
  main query is sent.
\<close>

theorem no_entities_is_success:
  "(optimizerId ef = [] \<and> (namespace ef \<noteq> [] \<or> workloadName ef \<noteq> [])
      \<and> listOptimizations x fuel ef tr = (tr1, Ok [])
    \<longrightarrow> listEvents x fuel sel ef tr = (tr1 @ [noEntities], Ok ()))
   \<and> (optimizerId rf = [] \<and> (namespace rf \<noteq> [] \<or> workloadName rf \<noteq> [])
      \<and> listOptimizations x fuel rf tr = (tr2, Ok [])
    \<longrightarrow> listRecommendations x fuel rf tr = (tr2 @ [noEntities], Ok ()))"
  by (auto simp: listEvents_def listRecommendations_def compileFilter_def Let_def)


text \<open>Namespace \<open>payments\<close> and a lookup whose reply has no main data set.\<close>

theorem no_entities_is_success_witness:
  "listOptimizations (exExtern nilClient) 0 (exCapFlags\<lparr>count := - 1\<rparr>) [] = ([Call (ExecuteQuery exNamespaceQuery)], Ok [])
   \<and> listEvents (exExtern nilClient) 0 noSignal (exCapFlags\<lparr>count := - 1\<rparr>) []
       = ([Call (ExecuteQuery exNamespaceQuery), noEntities], Ok ())
   \<and> listOptimizations (exExtern nilClient) 0 (exCapRecFlags\<lparr>count := 1\<rparr>) []
       = ([Call (ExecuteQuery (OptimizationTemplate
                  \<lparr>oSince = ''-52w'', oUntil = [], oSolutionName = ''optimize'',
                   oFilter = ''attributes('' @ exQuote ''k8s.namespace.name'' @ '') = '' @ exQuote ''payments''\<rparr>))], Ok [])
   \<and> snd (listRecommendations (exExtern nilClient) 0 (exCapRecFlags\<lparr>count := 1\<rparr>) []) = Ok ()
   \<and> last (fst (listRecommendations (exExtern nilClient) 0 (exCapRecFlags\<lparr>count := 1\<rparr>) [])) = noEntities"
proof -
  have e: "listOptimizations (exExtern nilClient) 0 (exCapFlags\<lparr>count := - 1\<rparr>) []
             = ([Call (ExecuteQuery exNamespaceQuery)], Ok [])"
    by (simp add: ex_defs listOptimizations_def logErrors_def)
  have r: "listOptimizations (exExtern nilClient) 0 (exCapRecFlags\<lparr>count := 1\<rparr>) []
       = ([Call (ExecuteQuery (OptimizationTemplate
                  \<lparr>oSince = ''-52w'', oUntil = [], oSolutionName = ''optimize'',
                   oFilter = ''attributes('' @ exQuote ''k8s.namespace.name'' @ '') = '' @ exQuote ''payments''\<rparr>))], Ok [])"
    by (simp add: ex_defs listOptimizations_def logErrors_def)
  from no_entities_is_success[where ef = "exCapFlags\<lparr>count := - 1\<rparr>" and rf = "exCapRecFlags\<lparr>count := 1\<rparr>"
          and x = "exExtern nilClient" and fuel = 0 and sel = noSignal and tr = "[]",
          unfolded e r]
  show ?thesis
    unfolding e r by (simp add: exCapFlags_def exCapRecFlags_def)
qed

text \<open>
  C10. When the recommendation rows have been retrieved (\<open>fetchPages\<close> returned them) and
  the reply to the optimization-started query has a nil main data set or one with no rows,
  \<open>listRecommendations\<close> fails with \<open>failed to retrieve optimization_started blocker data\<close>
  wrapping \<open>no optimization_started results found for given input\<close>; no row is joined
  and nothing is printed.
\<close>

theorem blocker_query_miss_fatal:
  assumes "compileFilter x fuel flags tr = (tr1, Ok (Some predicate))"
      and "compileLimits (count flags) = Ok limits"
      and "fetchPages x RecommendationsCmd fuel (RecommendationsTemplate (recTempVals flags predicate limits))
             (count flags \<noteq> - 1) tr1 = (tr2, Ok (Some (recommendationRows, ds)))"
      and "client x tr2 (ExecuteQuery (OptimizationStartedTemplate (recTempVals flags predicate limits))) = Inr resp"
      and "(case Main resp of None \<Rightarrow> True | Some m \<Rightarrow> Data m = [])"
  shows "listRecommendations x fuel flags tr =
           (tr2 @ [Call (ExecuteQuery (OptimizationStartedTemplate (recTempVals flags predicate limits)))] @
            startedErrors resp,
            Failed noStartedResults)"
  using assms
  by (auto simp: listRecommendations_def getOptimizationBlockerData_def noStartedResults_def Let_def
           split: option.splits)


text \<open>One recommendation row on the first page, and a started query whose reply has no
  main data set.\<close>

theorem blocker_query_miss_fatal_witness:
  "fetchPages (exExtern (recClient exRecPage None)) RecommendationsCmd 0 (RecommendationsTemplate exRecQuery) True []
      = ([Call (ExecuteQuery (RecommendationsTemplate exRecQuery))], Ok (Some ([exRow], Some exRecPage)))
   \<and> listRecommendations (exExtern (recClient exRecPage None)) 0 exRecFlags []
      = ([Call (ExecuteQuery (RecommendationsTemplate exRecQuery)),
          Call (ExecuteQuery (OptimizationStartedTemplate exRecQuery))],
         Failed noStartedResults)"
proof -
  let ?x = "exExtern (recClient exRecPage None)"
  have t: "recTempVals exRecFlags (''attributes(optimize.optimization.optimizer_id) = '' @ exQuote ''ns-wl-abc'') ''1'' = exRecQuery"
    by (simp add: recTempVals_def ex_defs)
  have f: "compileFilter ?x 0 exRecFlags [] =
             ([], Ok (Some (''attributes(optimize.optimization.optimizer_id) = '' @ exQuote ''ns-wl-abc'')))"
    by (simp add: compileFilter_def ex_defs)
  have l: "compileLimits (count exRecFlags) = Ok ''1''"
    by (simp add: compileLimits_def ex_defs Itoa_def digit_def)
  have p: "fetchPages ?x RecommendationsCmd 0 (RecommendationsTemplate exRecQuery) True []
      = ([Call (ExecuteQuery (RecommendationsTemplate exRecQuery))], Ok (Some ([exRow], Some exRecPage)))"
    by (simp add: ex_defs fetchPages_def executionErrors_def logErrors_def extractEventsData_def exRow_def)
  have cnt: "(count exRecFlags \<noteq> - 1) = True"
    by (simp add: exRecFlags_def)
  have p': "fetchPages ?x RecommendationsCmd 0 (RecommendationsTemplate exRecQuery) (count exRecFlags \<noteq> - 1) []
      = ([Call (ExecuteQuery (RecommendationsTemplate exRecQuery))], Ok (Some ([exRow], Some exRecPage)))"
    unfolding cnt by (rule p)
  have c: "client ?x [Call (ExecuteQuery (RecommendationsTemplate exRecQuery))]
             (ExecuteQuery (OptimizationStartedTemplate exRecQuery)) = Inr \<lparr>HasErrors = False, Errors = [], Main = None\<rparr>"
    by (simp add: ex_defs)
  have m: "(case Main \<lparr>HasErrors = False, Errors = [], Main = None\<rparr> of None \<Rightarrow> True | Some m \<Rightarrow> Data m = [])"
    by simp
  note r = blocker_query_miss_fatal[OF f l p'[folded t] c[folded t] m, unfolded t]
  from r p show ?thesis by (simp add: startedErrors_def logErrors_def)
qed

end
